(* ===== verification/Prelude.thy ===== *)
theory Prelude
  imports Main "HOL-Library.Word"
begin

text \<open>
  Shared vocabulary of the development: the type of an encoded instruction (the C code
  passes it as a 32-bit \<open>int\<close>, modelled as a \<open>32 word\<close> so that the bit-field macros are
  bitwise operations), the collections of lemmas the component theories extend, and
  generic facts on words and lists that several components use.
\<close>

unbundle bit_operations_syntax

type_synonym instr = "32 word"

text \<open>What a C routine writes to standard output with \<open>printf\<close>, in order.\<close>

type_synonym stdout = string

named_theorems field_simps_rv "bounds and characterisations of the instruction fields"
named_theorems render_simps "unfolding facts for the rendering of one instruction"

subsection \<open>Masks on words\<close>

lemma unat_and_mask:
  "unat ((x :: 'a :: len word) AND mask n) = unat x mod 2 ^ n"
proof -
  have "unat (x AND mask n) = take_bit n (unat x)"
    by (simp only: take_bit_eq_mask [symmetric] unsigned_take_bit_eq)
  then show ?thesis by (simp add: take_bit_eq_mod)
qed

lemma unat_and_mask_less [field_simps_rv]:
  "unat ((x :: 'a :: len word) AND mask n) < 2 ^ n"
  by (simp add: unat_and_mask)

lemma unat_drop_bit_and_mask:
  "unat (drop_bit k (x :: 'a :: len word) AND mask n) = unat x div 2 ^ k mod 2 ^ n"
proof -
  have "unat (drop_bit k x) = drop_bit k (unat x)"
    by (rule unat_drop_bit_eq)
  also have "\<dots> = unat x div 2 ^ k"
    by (simp add: drop_bit_eq_div)
  finally show ?thesis by (simp add: unat_and_mask)
qed

subsection \<open>Signed reading of a 32-bit word\<close>

lemma sint_word32_eq:
  "sint (w :: 32 word) = (if uint w < 2 ^ 31 then uint w else uint w - 2 ^ 32)"
proof -
  have m: "uint w = sint w mod 2 ^ 32" by (simp only: uint_sint take_bit_eq_mod) simp
  have lo: "- (2 ^ 31) \<le> sint w" using sint_greater_eq [of w] by simp
  have hi: "sint w < 2 ^ 31" using sint_less [of w] by simp
  have pos: "uint w = sint w" if "0 \<le> sint w"
    using m that hi by simp
  have neg: "uint w = sint w + 2 ^ 32" if "sint w < 0"
  proof -
    have "sint w mod 2 ^ 32 = (sint w + 2 ^ 32) mod 2 ^ 32" by simp
    also have "\<dots> = sint w + 2 ^ 32" using that lo by (intro mod_pos_pos_trivial) simp_all
    finally show ?thesis using m by simp
  qed
  show ?thesis
  proof (cases "0 \<le> sint w")
    case True
    with pos hi show ?thesis by simp
  next
    case False
    with neg lo show ?thesis by simp
  qed
qed

lemma sint_word32_unat:
  "sint (w :: 32 word) = (if unat w < 2 ^ 31 then int (unat w) else int (unat w) - 2 ^ 32)"
proof -
  have "int (unat w) < 2 ^ 31 \<longleftrightarrow> unat w < 2 ^ 31"
    by (simp only: of_nat_less_numeral_power_cancel_iff)
  then show ?thesis by (simp only: sint_word32_eq uint_nat)
qed

subsection \<open>Positional arithmetic\<close>

text \<open>Reading a digit group back out of a Horner-form number.\<close>

lemma horner_div: "a < b \<Longrightarrow> (a + b * c) div b = (c :: nat)"
  by simp

lemma horner_mod: "a < b \<Longrightarrow> (a + b * c) mod b = (a :: nat)"
  by simp

lemma horner_div_int: "0 \<le> a \<Longrightarrow> a < b \<Longrightarrow> (a + b * c) div b = (c :: int)"
  by simp

subsection \<open>Lists\<close>

text \<open>Unfolds a padding \<open>replicate\<close> on a numeral during evaluation.\<close>

lemma replicate_numeral_Cons: "replicate (numeral n) x = x # replicate (pred_numeral n) x"
  by (simp add: numeral_eq_Suc)

lemma concat_map_append_eq_Nil:
  "concat (map f xs) = [] \<longleftrightarrow> (\<forall>x \<in> set xs. f x = [])"
  by simp

lemma length_concat_map_const:
  "(\<And>x. x \<in> set xs \<Longrightarrow> length (f x) = k) \<Longrightarrow> length (concat (map f xs)) = k * length xs"
  by (induction xs) auto

lemma length_filter_concat_map:
  "(\<And>x. x \<in> set xs \<Longrightarrow> length (filter P (f x)) = k) \<Longrightarrow>
   length (filter P (concat (map f xs))) = k * length xs"
  by (induction xs) auto

lemma those_map_Some: "those (map Some xs) = Some xs"
  by (induction xs) simp_all

lemma map_nth_upt_take: "n \<le> length xs \<Longrightarrow> map (\<lambda>j. f (xs ! j)) [0..<n] = map f (take n xs)"
  by (rule nth_equalityI) simp_all

subsection \<open>Bits of small numbers and of shifted masks\<close>

lemma bit_small_int: "0 \<le> (a :: int) \<Longrightarrow> a < 2 ^ k \<Longrightarrow> k \<le> n \<Longrightarrow> \<not> bit a n"
  by (metis bit_take_bit_iff not_le take_bit_int_eq_self)

lemma bit_small_nat: "(a :: nat) < 2 ^ k \<Longrightarrow> k \<le> n \<Longrightarrow> \<not> bit a n"
  by (metis bit_take_bit_iff not_le take_bit_nat_eq_self)

lemma bit_push_mask_int:
  "(c :: int) = push_bit k (mask l) \<Longrightarrow> bit c n \<longleftrightarrow> k \<le> n \<and> n < k + l"
  by (auto simp: bit_push_bit_iff bit_mask_iff)

end
