(* ===== verification/Printf.thy ===== *)
theory Printf
  imports Prelude
begin

text \<open>
  The C library conversions that \<open>output.c\<close> uses, as functions from the printed value
  to the characters written: \<open>%d\<close> (\<open>fmt_d\<close>), \<open>%.<p>X\<close> (\<open>fmt_X\<close>: upper-case hex,
  at least \<open>p\<close> digits, zero-padded) and \<open>%-<w>s\<close> (\<open>pad_right\<close>). They follow the C
  standard (7.21.6.1): the precision is the minimum number of digits, the default
  precision is 1, and a negative \<open>%d\<close> argument is printed with a leading minus sign.
  Each printer comes with a parser and a roundtrip lemma, so that a printed field can be
  read back: this is what makes the disassembly and the state dump unambiguous. The
  split of printed text into blank-separated fields (\<open>split_fields\<close>) and the count of
  its lines (\<open>lines_of\<close>) are the reader's side of the state dump.
\<close>

subsection \<open>Digits of a natural number\<close>

fun nat_digits :: "nat \<Rightarrow> nat \<Rightarrow> nat list" where
  "nat_digits b n = (if n = 0 \<or> b < 2 then [] else nat_digits b (n div b) @ [n mod b])"

declare nat_digits.simps [simp del]

definition digits_value :: "nat \<Rightarrow> nat list \<Rightarrow> nat" where
  "digits_value b ds = foldl (\<lambda>acc d. acc * b + d) 0 ds"

definition fmt_digits :: "nat \<Rightarrow> nat \<Rightarrow> nat \<Rightarrow> nat list" where
  "fmt_digits b prec n = (let ds = nat_digits b n in replicate (prec - length ds) 0 @ ds)"

subsection \<open>Characters\<close>

definition digit_char :: "nat \<Rightarrow> char" where
  "digit_char d = ''0123456789ABCDEF'' ! d"

definition char_digit :: "char \<Rightarrow> nat option" where
  "char_digit c =
     (let k = of_char c :: nat in
      if 48 \<le> k \<and> k < 58 then Some (k - 48)
      else if 65 \<le> k \<and> k < 71 then Some (k - 55)
      else None)"

subsection \<open>The conversions\<close>

text \<open>\<open>%.<prec>X\<close> of an unsigned value.\<close>

definition fmt_X :: "nat \<Rightarrow> nat \<Rightarrow> string" where
  "fmt_X prec n = map digit_char (fmt_digits 16 prec n)"

text \<open>\<open>%u\<close>, and \<open>%d\<close> of a signed value.\<close>

definition fmt_u :: "nat \<Rightarrow> string" where
  "fmt_u n = map digit_char (fmt_digits 10 1 n)"

definition fmt_d :: "int \<Rightarrow> string" where
  "fmt_d i = (if i < 0 then CHR ''-'' # fmt_u (nat (- i)) else fmt_u (nat i))"

text \<open>\<open>%d\<close> of a register index or another non-negative \<open>int\<close> field.\<close>

abbreviation fmt_dn :: "nat \<Rightarrow> string" where
  "fmt_dn n \<equiv> fmt_d (int n)"

text \<open>The tab, newline and single-quote characters the formats contain.\<close>

abbreviation TAB :: char where "TAB \<equiv> CHR 0x09"
abbreviation NL :: char where "NL \<equiv> CHR 0x0A"
abbreviation SQ :: char where "SQ \<equiv> CHR 0x27"

text \<open>\<open>%-<w>s\<close>: left-justified in a field of width \<open>w\<close>.\<close>

definition pad_right :: "nat \<Rightarrow> string \<Rightarrow> string" where
  "pad_right w s = s @ replicate (w - length s) CHR '' ''"

text \<open>The number of lines a text ends (its newline characters).\<close>

abbreviation lines_of :: "string \<Rightarrow> nat" where
  "lines_of s \<equiv> length (filter (\<lambda>c. c = NL) s)"

subsection \<open>Parsers\<close>

definition parse_digits :: "nat \<Rightarrow> string \<Rightarrow> nat option" where
  "parse_digits b s =
     (case those (map char_digit s) of
        None \<Rightarrow> None
      | Some ds \<Rightarrow> if s \<noteq> [] \<and> list_all (\<lambda>d. d < b) ds then Some (digits_value b ds) else None)"

definition parse_d :: "string \<Rightarrow> int option" where
  "parse_d s =
     (if s \<noteq> [] \<and> hd s = CHR ''-'' then map_option (\<lambda>n. - int n) (parse_digits 10 (tl s))
      else map_option int (parse_digits 10 s))"

subsection \<open>Fields of printed text\<close>

text \<open>
  A reader of the simulator's dump splits it at blanks, tabs and newlines; \<open>split_fields\<close> is that
  split (empty fields dropped), the accumulator holding the current field reversed.
\<close>

definition is_space :: "char \<Rightarrow> bool" where
  "is_space c \<longleftrightarrow> c = CHR '' '' \<or> c = TAB \<or> c = NL"

fun split_fields_acc :: "string \<Rightarrow> string \<Rightarrow> string list" where
  "split_fields_acc acc [] = (if acc = [] then [] else [rev acc])"
| "split_fields_acc acc (c # cs) =
     (if is_space c then (if acc = [] then [] else [rev acc]) @ split_fields_acc [] cs
      else split_fields_acc (c # acc) cs)"

definition split_fields :: "string \<Rightarrow> string list" where
  "split_fields s = split_fields_acc [] s"

definition space_free :: "string \<Rightarrow> bool" where
  "space_free w \<longleftrightarrow> list_all (\<lambda>c. \<not> is_space c) w"

definition starts_space :: "string \<Rightarrow> bool" where
  "starts_space s \<longleftrightarrow> (case s of [] \<Rightarrow> True | c # _ \<Rightarrow> is_space c)"

subsection \<open>Digits: value, range and length\<close>

lemma digits_value_snoc [simp]: "digits_value b (ds @ [d]) = digits_value b ds * b + d"
  by (simp add: digits_value_def)

lemma digits_value_zeros [simp]: "digits_value b (replicate k 0 @ ds) = digits_value b ds"
proof -
  have "foldl (\<lambda>acc d. acc * b + d) 0 (replicate k 0) = (0::nat)"
    by (induction k) auto
  then show ?thesis by (simp add: digits_value_def)
qed

lemma nat_digits_value: "2 \<le> b \<Longrightarrow> digits_value b (nat_digits b n) = n"
proof (induction b n rule: nat_digits.induct)
  case (1 b n)
  show ?case
  proof (cases "n = 0")
    case True
    then show ?thesis by (simp add: nat_digits.simps digits_value_def)
  next
    case False
    with "1" have "digits_value b (nat_digits b (n div b)) = n div b" by simp
    with False "1.prems" show ?thesis by (simp add: nat_digits.simps [of b n])
  qed
qed

lemma nat_digits_less: "d \<in> set (nat_digits b n) \<Longrightarrow> d < b"
proof (induction b n rule: nat_digits.induct)
  case (1 b n)
  then show ?case
    by (cases "n = 0 \<or> b < 2") (auto simp: nat_digits.simps [of b n])
qed

lemma length_nat_digits_le:
  "2 \<le> b \<Longrightarrow> length (nat_digits b n) \<le> k \<longleftrightarrow> n < b ^ k"
proof (induction b n arbitrary: k rule: nat_digits.induct)
  case (1 b n)
  show ?case
  proof (cases "n = 0")
    case True
    with "1.prems" show ?thesis by (simp add: nat_digits.simps)
  next
    case False
    show ?thesis
    proof (cases k)
      case 0
      with False "1.prems" show ?thesis by (simp add: nat_digits.simps [of b n])
    next
      case (Suc k')
      from "1.IH" False "1.prems"
      have "length (nat_digits b (n div b)) \<le> k' \<longleftrightarrow> n div b < b ^ k'" by simp
      moreover have "n div b < b ^ k' \<longleftrightarrow> n < b ^ Suc k'"
        using "1.prems" by (simp add: div_less_iff_less_mult mult.commute)
      ultimately show ?thesis
        using Suc False "1.prems" by (simp add: nat_digits.simps [of b n])
    qed
  qed
qed

lemma fmt_digits_less: "d \<in> set (fmt_digits b prec n) \<Longrightarrow> 2 \<le> b \<Longrightarrow> d < b"
  by (auto simp: fmt_digits_def Let_def dest: nat_digits_less)

lemma fmt_digits_value: "2 \<le> b \<Longrightarrow> digits_value b (fmt_digits b prec n) = n"
  by (simp add: fmt_digits_def Let_def nat_digits_value)

lemma length_fmt_digits: "length (fmt_digits b prec n) = max prec (length (nat_digits b n))"
  by (simp add: fmt_digits_def Let_def)

subsection \<open>Characters roundtrip\<close>

lemma digit_chars_all:
  "\<forall>d \<in> set [0..<16]. char_digit (digit_char d) = Some d \<and> digit_char d \<noteq> CHR ''-''"
  by (simp add: digit_char_def char_digit_def upt_rec)

lemma char_digit_digit_char [simp]: "d < 16 \<Longrightarrow> char_digit (digit_char d) = Some d"
  using digit_chars_all by simp

lemma those_map_char_digit:
  "(\<And>d. d \<in> set ds \<Longrightarrow> d < 16) \<Longrightarrow> those (map char_digit (map digit_char ds)) = Some ds"
  by (induction ds) auto

lemma digit_char_not_minus: "d < 16 \<Longrightarrow> digit_char d \<noteq> CHR ''-''"
  using digit_chars_all by simp

subsection \<open>Roundtrips and widths of the conversions\<close>

lemma fmt_digits_nonempty: "1 \<le> prec \<Longrightarrow> fmt_digits b prec n \<noteq> []"
  by (cases "nat_digits b n") (auto simp: fmt_digits_def)

lemma parse_digits_map_digit_char:
  assumes "2 \<le> b" "b \<le> 16" "ds \<noteq> []" "\<And>d. d \<in> set ds \<Longrightarrow> d < b"
  shows "parse_digits b (map digit_char ds) = Some (digits_value b ds)"
proof -
  have "those (map char_digit (map digit_char ds)) = Some ds"
    using assms(2,4) by (intro those_map_char_digit) fastforce
  with assms(3,4) show ?thesis
    by (simp add: parse_digits_def list_all_iff)
qed

lemma parse_fmt_X: "1 \<le> prec \<Longrightarrow> parse_digits 16 (fmt_X prec n) = Some n"
  unfolding fmt_X_def
  by (simp add: parse_digits_map_digit_char fmt_digits_nonempty fmt_digits_less fmt_digits_value)

lemma parse_fmt_u: "parse_digits 10 (fmt_u n) = Some n"
  unfolding fmt_u_def
  by (simp add: parse_digits_map_digit_char fmt_digits_nonempty fmt_digits_less fmt_digits_value)

lemma fmt_u_nonempty [simp]: "fmt_u n \<noteq> []"
  by (simp add: fmt_u_def fmt_digits_nonempty)

lemma fmt_d_nonempty [simp]: "fmt_d i \<noteq> []"
  by (simp add: fmt_d_def)

lemma hd_fmt_u_not_minus: "hd (fmt_u n) \<noteq> CHR ''-''"
proof -
  have "fmt_digits 10 1 n \<noteq> []"
    by (rule fmt_digits_nonempty) simp
  then obtain d ds where eq: "fmt_digits 10 1 n = d # ds"
    by (cases "fmt_digits 10 1 n") auto
  then have "d < 16"
    using fmt_digits_less [of d 10 1 n] by simp
  with eq show ?thesis
    by (simp add: fmt_u_def digit_char_not_minus)
qed

lemma parse_fmt_d: "parse_d (fmt_d i) = Some i"
proof (cases "i < 0")
  case True
  then show ?thesis by (simp add: fmt_d_def parse_d_def parse_fmt_u)
next
  case False
  then show ?thesis
    by (simp add: fmt_d_def parse_d_def parse_fmt_u hd_fmt_u_not_minus)
qed

lemma fmt_d_inj: "fmt_d i = fmt_d j \<Longrightarrow> i = j"
  by (metis option.inject parse_fmt_d)

lemma length_fmt_X: "n < 16 ^ prec \<Longrightarrow> length (fmt_X prec n) = prec"
  by (simp add: fmt_X_def length_fmt_digits length_nat_digits_le)

lemma length_fmt_X_word: "length (fmt_X 8 (unat (w :: 32 word))) = 8"
proof -
  have "unat w < 16 ^ 8"
    using unsigned_less [of w] by simp
  then show ?thesis by (rule length_fmt_X)
qed

lemma length_fmt_X_byte: "length (fmt_X 2 (unat (b :: 8 word))) = 2"
proof -
  have "unat b < 16 ^ 2"
    using unsigned_less [of b] by simp
  then show ?thesis by (rule length_fmt_X)
qed

lemma length_pad_right: "length (pad_right w s) = max w (length s)"
  by (simp add: pad_right_def)

lemma digit_char_mem: "d < 16 \<Longrightarrow> digit_char d \<in> set ''0123456789ABCDEF''"
  unfolding digit_char_def by (rule nth_mem) simp

lemma set_fmt_X: "set (fmt_X prec n) \<subseteq> set ''0123456789ABCDEF''"
proof
  fix c assume "c \<in> set (fmt_X prec n)"
  then obtain d where "d \<in> set (fmt_digits 16 prec n)" "c = digit_char d"
    by (auto simp: fmt_X_def)
  then show "c \<in> set ''0123456789ABCDEF''"
    using fmt_digits_less [of d 16 prec n] digit_char_mem [of d] by simp
qed

lemma set_fmt_u: "set (fmt_u n) \<subseteq> set ''0123456789ABCDEF''"
proof
  fix c assume "c \<in> set (fmt_u n)"
  then obtain d where "d \<in> set (fmt_digits 10 1 n)" "c = digit_char d"
    by (auto simp: fmt_u_def)
  then show "c \<in> set ''0123456789ABCDEF''"
    using fmt_digits_less [of d 10 1 n] digit_char_mem [of d] by simp
qed

lemma set_fmt_d: "set (fmt_d i) \<subseteq> insert CHR ''-'' (set ''0123456789ABCDEF'')"
proof (cases "i < 0")
  case True
  then have "set (fmt_d i) = insert CHR ''-'' (set (fmt_u (nat (- i))))" by (simp add: fmt_d_def)
  then show ?thesis using set_fmt_u by blast
next
  case False
  then have "set (fmt_d i) = set (fmt_u (nat i))" by (simp add: fmt_d_def)
  then show ?thesis using set_fmt_u by blast
qed

lemma NL_notin_fmt_X: "NL \<notin> set (fmt_X prec n)"
  using set_fmt_X [of prec n] by auto

lemma NL_notin_fmt_d: "NL \<notin> set (fmt_d i)"
  using set_fmt_d [of i] by auto

subsection \<open>Splitting printed text into fields\<close>

lemma space_free_append [simp]: "space_free (xs @ ys) \<longleftrightarrow> space_free xs \<and> space_free ys"
  by (simp add: space_free_def)

lemma space_free_Cons [simp]: "space_free (c # xs) \<longleftrightarrow> \<not> is_space c \<and> space_free xs"
  by (simp add: space_free_def)

lemma space_free_Nil [simp]: "space_free []"
  by (simp add: space_free_def)

lemma starts_space_Cons [simp]: "starts_space (c # xs) \<longleftrightarrow> is_space c"
  by (simp add: starts_space_def)

lemma starts_space_Nil [simp]: "starts_space []"
  by (simp add: starts_space_def)

lemma fields_Nil [simp]: "split_fields [] = []"
  by (simp add: split_fields_def)

lemma fields_space [simp]: "is_space c \<Longrightarrow> split_fields (c # s) = split_fields s"
  by (simp add: split_fields_def)

lemma fields_acc_word: "space_free w \<Longrightarrow> split_fields_acc acc (w @ rest) = split_fields_acc (rev w @ acc) rest"
  by (induction w arbitrary: acc) simp_all

lemma fields_acc_flush:
  "starts_space rest \<Longrightarrow> split_fields_acc acc rest = (if acc = [] then [] else [rev acc]) @ split_fields rest"
  by (cases rest) (simp_all add: split_fields_def)

text \<open>A field between a separator and text that starts with a separator.\<close>

lemma fields_word:
  assumes "is_space c" "w \<noteq> []" "space_free w" "starts_space rest"
  shows "split_fields (c # w @ rest) = w # split_fields rest"
proof -
  have "split_fields (c # w @ rest) = split_fields_acc [] (w @ rest)"
    using assms(1) by (simp add: split_fields_def)
  also have "\<dots> = split_fields_acc (rev w) rest"
    using assms(3) by (simp add: fields_acc_word)
  also have "\<dots> = w # split_fields rest"
    using assms(2,4) by (simp add: fields_acc_flush)
  finally show ?thesis .
qed

lemma hex_chars_not_space: "x \<in> set ''-0123456789ABCDEF'' \<Longrightarrow> \<not> is_space x"
  by (auto simp: is_space_def)

lemma space_free_fmt_X [simp]: "space_free (fmt_X prec n)"
  using set_fmt_X [of prec n] hex_chars_not_space by (auto simp: space_free_def list_all_iff)

lemma space_free_fmt_d [simp]: "space_free (fmt_d i)"
  using set_fmt_d [of i] hex_chars_not_space by (auto simp: space_free_def list_all_iff)

lemma fmt_X_nonempty [simp]: "1 \<le> prec \<Longrightarrow> fmt_X prec n \<noteq> []"
  by (simp add: fmt_X_def fmt_digits_nonempty)

lemma lines_of_append [simp]: "lines_of (xs @ ys) = lines_of xs + lines_of ys"
  by simp

lemma lines_of_free: "NL \<notin> set s \<Longrightarrow> lines_of s = 0"
  by (auto simp: filter_empty_conv)

end
