(* ===== verification/Instr_Fields.thy ===== *)
theory Instr_Fields
  imports Printf
begin

text \<open>
  The instruction-word interface the disassembler reads: the \<open>NOP\<close> sentinel and the
  bit-field macros \<open>FIELD_*\<close> of the simulator's headers (not part of \<open>src/\<close>; modelled
  from spec section 6). The unsigned fields are a shift and a mask of the word; the
  immediates are read from the signed 32-bit \<open>int\<close> the C code passes, with C's
  arithmetic right shift (\<open>drop_bit\<close> on \<open>int\<close>, i.e. floor division by a power of 2).
  The theory proves the range of every field, the arithmetic reading of each, and the
  roundtrip of the R-, I- and S-type encoders (an encoder puts fields into a word, the
  macros get them back).
\<close>

unbundle bit_operations_syntax

subsection \<open>The sentinel and the fields\<close>

text \<open>\<open>NOP\<close> is the canonical RISC-V no-op \<open>addi x0, x0, 0\<close>.\<close>

definition NOP :: instr where
  "NOP = 0x00000013"

definition FIELD_OPCODE :: "instr \<Rightarrow> nat" where
  "FIELD_OPCODE w = unat (w AND 0x7F)"

definition FIELD_RD :: "instr \<Rightarrow> nat" where
  "FIELD_RD w = unat (drop_bit 7 w AND 0x1F)"

definition FIELD_FUNC3 :: "instr \<Rightarrow> nat" where
  "FIELD_FUNC3 w = unat (drop_bit 12 w AND 0x7)"

definition FIELD_RS1 :: "instr \<Rightarrow> nat" where
  "FIELD_RS1 w = unat (drop_bit 15 w AND 0x1F)"

definition FIELD_RS2 :: "instr \<Rightarrow> nat" where
  "FIELD_RS2 w = unat (drop_bit 20 w AND 0x1F)"

definition FIELD_FUNC7 :: "instr \<Rightarrow> nat" where
  "FIELD_FUNC7 w = unat (drop_bit 25 w AND 0x7F)"

text \<open>\<open>imm_I\<close>: bits 31..20, sign-extended (\<open>instr >> 20\<close> on a signed \<open>int\<close>).\<close>

definition FIELD_IMM_I :: "instr \<Rightarrow> int" where
  "FIELD_IMM_I w = drop_bit 20 (sint w)"

text \<open>\<open>imm_S\<close>: bits 31..25 sign-extended above bits 11..7.\<close>

definition FIELD_IMM_S :: "instr \<Rightarrow> int" where
  "FIELD_IMM_S w = push_bit 5 (drop_bit 25 (sint w)) OR int (FIELD_RD w)"

text \<open>The JAL offset: \<open>imm[20|10:1|11|19:12]\<close> of bits 31..12, sign-extended, bit 0 clear.\<close>

definition FIELD_OFFSET :: "instr \<Rightarrow> int" where
  "FIELD_OFFSET w =
     (let i = sint w in
      push_bit 20 (drop_bit 31 i) OR (i AND 0xFF000) OR (drop_bit 9 i AND 0x800)
        OR (drop_bit 20 i AND 0x7FE))"

subsection \<open>Encoders\<close>

text \<open>
  The inverse direction, used to state the roundtrips and to build test words: the
  fields are placed at their bit positions (Horner form, lowest field first).
\<close>

definition encode_R :: "nat \<Rightarrow> nat \<Rightarrow> nat \<Rightarrow> nat \<Rightarrow> nat \<Rightarrow> nat \<Rightarrow> instr" where
  "encode_R f7 rs2 rs1 f3 rd opc =
     of_nat (opc + 128 * (rd + 32 * (f3 + 8 * (rs1 + 32 * (rs2 + 32 * f7)))))"

definition encode_I :: "int \<Rightarrow> nat \<Rightarrow> nat \<Rightarrow> nat \<Rightarrow> nat \<Rightarrow> instr" where
  "encode_I imm rs1 f3 rd opc =
     of_nat (opc + 128 * (rd + 32 * (f3 + 8 * (rs1 + 32 * nat (imm mod 4096)))))"

definition encode_S :: "int \<Rightarrow> nat \<Rightarrow> nat \<Rightarrow> nat \<Rightarrow> nat \<Rightarrow> instr" where
  "encode_S imm rs2 rs1 f3 opc =
     of_nat (opc + 128 * (nat (imm mod 32) + 32 * (f3 + 8 * (rs1 + 32 * (rs2 + 32 * nat (imm mod 4096 div 32))))))"

text \<open>
  The J format, bit by bit as the ISA manual draws it: \<open>imm[20|10:1|11|19:12]\<close> in bits
  31--12 above \<open>rd\<close> and the opcode (the offset is taken modulo \<open>2^32\<close>, its bit 0 dropped).
\<close>

definition encode_J :: "int \<Rightarrow> nat \<Rightarrow> nat \<Rightarrow> instr" where
  "encode_J off rd opc =
     (let u = word_of_int off :: instr in
      push_bit 31 (drop_bit 20 u AND mask 1) OR push_bit 21 (drop_bit 1 u AND mask 10)
      OR push_bit 20 (drop_bit 11 u AND mask 1) OR push_bit 12 (drop_bit 12 u AND mask 8)
      OR push_bit 7 (word_of_nat rd AND mask 5) OR (word_of_nat opc AND mask 7))"

subsection \<open>Arithmetic reading and range of each field\<close>

lemma mask_consts: "(0x7F :: 32 word) = mask 7" "(0x1F :: 32 word) = mask 5" "(0x7 :: 32 word) = mask 3"
  by (simp_all add: mask_eq_exp_minus_1)

lemma FIELD_OPCODE_eq [field_simps_rv]: "FIELD_OPCODE w = unat w mod 128"
  by (simp add: FIELD_OPCODE_def mask_consts unat_and_mask)
lemma FIELD_RD_eq [field_simps_rv]: "FIELD_RD w = unat w div 128 mod 32"
  by (simp add: FIELD_RD_def mask_consts unat_drop_bit_and_mask)
lemma FIELD_FUNC3_eq [field_simps_rv]: "FIELD_FUNC3 w = unat w div 128 div 32 mod 8"
  by (simp add: FIELD_FUNC3_def mask_consts unat_drop_bit_and_mask div_mult2_eq [symmetric])
lemma FIELD_RS1_eq [field_simps_rv]: "FIELD_RS1 w = unat w div 128 div 32 div 8 mod 32"
  by (simp add: FIELD_RS1_def mask_consts unat_drop_bit_and_mask div_mult2_eq [symmetric])
lemma FIELD_RS2_eq [field_simps_rv]: "FIELD_RS2 w = unat w div 128 div 32 div 8 div 32 mod 32"
  by (simp add: FIELD_RS2_def mask_consts unat_drop_bit_and_mask div_mult2_eq [symmetric])
lemma FIELD_FUNC7_eq [field_simps_rv]: "FIELD_FUNC7 w = unat w div 128 div 32 div 8 div 32 div 32 mod 128"
  by (simp add: FIELD_FUNC7_def mask_consts unat_drop_bit_and_mask div_mult2_eq [symmetric])

lemma FIELD_OPCODE_less [field_simps_rv]: "FIELD_OPCODE w < 128"
  by (simp add: FIELD_OPCODE_eq)

lemma FIELD_RD_less [field_simps_rv]: "FIELD_RD w < 32"
  by (simp add: FIELD_RD_eq)

lemma FIELD_FUNC3_less [field_simps_rv]: "FIELD_FUNC3 w < 8"
  by (simp add: FIELD_FUNC3_eq)

lemma FIELD_RS1_less [field_simps_rv]: "FIELD_RS1 w < 32"
  by (simp add: FIELD_RS1_eq)

lemma FIELD_RS2_less [field_simps_rv]: "FIELD_RS2 w < 32"
  by (simp add: FIELD_RS2_eq)

lemma FIELD_FUNC7_less [field_simps_rv]: "FIELD_FUNC7 w < 128"
  by (simp add: FIELD_FUNC7_eq)

lemma FIELD_IMM_I_eq: "FIELD_IMM_I w = sint w div 2 ^ 20"
  by (simp add: FIELD_IMM_I_def drop_bit_eq_div)

lemma FIELD_IMM_S_eq: "FIELD_IMM_S w = 32 * (sint w div 2 ^ 25) + int (FIELD_RD w)"
proof -
  have rd: "FIELD_RD w < 32" by (simp add: FIELD_RD_eq)
  then have "int (FIELD_RD w) = take_bit 5 (int (FIELD_RD w))"
    by (intro take_bit_int_eq_self [symmetric]) simp_all
  then have "FIELD_IMM_S w = concat_bit 5 (int (FIELD_RD w)) (drop_bit 25 (sint w))"
    by (simp add: FIELD_IMM_S_def concat_bit_def or.commute)
  also have "\<dots> = int (FIELD_RD w) + 32 * (sint w div 2 ^ 25)"
    using rd by (simp add: concat_bit_eq take_bit_int_eq_self_iff push_bit_eq_mult drop_bit_eq_div)
  finally show ?thesis by simp
qed

subsection \<open>Encoders and decoders are inverse\<close>

lemma unat_of_nat_word32: "n < 2 ^ 32 \<Longrightarrow> unat (of_nat n :: 32 word) = n"
  by (simp add: unat_of_nat)

lemma encode_R_fields:
  assumes "opc < 128" "rd < 32" "f3 < 8" "rs1 < 32" "rs2 < 32" "f7 < 128"
  defines "w \<equiv> encode_R f7 rs2 rs1 f3 rd opc"
  shows "FIELD_OPCODE w = opc \<and> FIELD_RD w = rd \<and> FIELD_FUNC3 w = f3 \<and>
         FIELD_RS1 w = rs1 \<and> FIELD_RS2 w = rs2 \<and> FIELD_FUNC7 w = f7"
proof -
  define x5 where "x5 = rs2 + 32 * f7"
  define x4 where "x4 = rs1 + 32 * x5"
  define x3 where "x3 = f3 + 8 * x4"
  define x2 where "x2 = rd + 32 * x3"
  have "opc + 128 * x2 < 2 ^ 32"
    using assms(1-6) by (simp add: x2_def x3_def x4_def x5_def)
  then have u: "unat w = opc + 128 * x2"
    unfolding w_def encode_R_def x2_def x3_def x4_def x5_def by (rule unat_of_nat_word32)
  have "x5 div 32 mod 128 = f7" using assms(5,6) by (simp add: x5_def)
  moreover have "(opc + 128 * x2) mod 128 = opc" "(opc + 128 * x2) div 128 = x2"
    using assms(1) by (simp_all only: horner_div horner_mod)
  moreover have "x2 mod 32 = rd" "x2 div 32 = x3"
    unfolding x2_def using assms(2) by (simp_all only: horner_div horner_mod)
  moreover have "x3 mod 8 = f3" "x3 div 8 = x4"
    unfolding x3_def using assms(3) by (simp_all only: horner_div horner_mod)
  moreover have "x4 mod 32 = rs1" "x4 div 32 = x5"
    unfolding x4_def using assms(4) by (simp_all only: horner_div horner_mod)
  moreover have "x5 mod 32 = rs2"
    unfolding x5_def using assms(5) by (simp only: horner_mod)
  ultimately show ?thesis
    by (simp add: field_simps_rv u)
qed

lemma sint_div_pow:
  assumes k: "k \<le> 31" and u: "unat (w :: 32 word) = low + 2 ^ k * m"
    and low: "low < 2 ^ k" and m: "m < 2 ^ (32 - k)"
  shows "sint w div 2 ^ k = (if m < 2 ^ (31 - k) then int m else int m - 2 ^ (32 - k))"
proof -
  have p31: "(2::nat) ^ 31 = 2 ^ k * 2 ^ (31 - k)" using k by (simp flip: power_add)
  have p32: "(2::int) ^ 32 = 2 ^ k * 2 ^ (32 - k)" using k by (simp flip: power_add)
  have small: "unat w < 2 ^ 31 \<longleftrightarrow> m < 2 ^ (31 - k)"
  proof
    assume "unat w < 2 ^ 31"
    then have "2 ^ k * m < 2 ^ k * 2 ^ (31 - k)" using u p31 by linarith
    then show "m < 2 ^ (31 - k)" by simp
  next
    assume "m < 2 ^ (31 - k)"
    then have "m + 1 \<le> 2 ^ (31 - k)" by simp
    then have "2 ^ k * (m + 1) \<le> 2 ^ k * 2 ^ (31 - k)" by (rule mult_le_mono2)
    with low show "unat w < 2 ^ 31" using u p31 by simp
  qed
  have ui: "int (unat w) = int low + 2 ^ k * int m" using u by simp
  show ?thesis
  proof (cases "m < 2 ^ (31 - k)")
    case True
    then have "sint w = int low + 2 ^ k * int m" using small ui by (simp add: sint_word32_unat)
    then show ?thesis using True low by (simp add: horner_div_int)
  next
    case False
    then have "sint w = int low + 2 ^ k * (int m - 2 ^ (32 - k))"
      using small ui p32 by (simp add: sint_word32_unat algebra_simps)
    then show ?thesis using False low by (simp add: horner_div_int)
  qed
qed

lemma FIELD_IMM_I_range: "-2048 \<le> FIELD_IMM_I w \<and> FIELD_IMM_I w < 2048"
proof -
  have lo: "- (2 ^ 31) \<le> sint w" using sint_greater_eq [of w] by simp
  have hi: "sint w < 2 ^ 31" using sint_less [of w] by simp
  have "- (2 ^ 31) div 2 ^ 20 \<le> sint w div (2 ^ 20 :: int)" using lo by (rule zdiv_mono1) simp
  moreover have "sint w div 2 ^ 20 \<le> (2 ^ 31 - 1) div (2 ^ 20 :: int)" using hi by (intro zdiv_mono1) simp_all
  ultimately show ?thesis by (simp add: FIELD_IMM_I_eq)
qed

lemma mod_two_n_signed:
  assumes "- n \<le> (i :: int)" "i < n"
  shows "i mod (2 * n) = (if 0 \<le> i then i else i + 2 * n)"
proof (cases "0 \<le> i")
  case True
  with assms show ?thesis by (simp add: mod_pos_pos_trivial)
next
  case False
  have "i mod (2 * n) = (i + 2 * n) mod (2 * n)" by simp
  also have "\<dots> = i + 2 * n" using assms False by (intro mod_pos_pos_trivial) simp_all
  finally show ?thesis using False by simp
qed

lemma encode_I_imm:
  assumes "opc < 128" "rd < 32" "f3 < 8" "rs1 < 32" "-2048 \<le> imm" "imm < 2048"
  shows "FIELD_IMM_I (encode_I imm rs1 f3 rd opc) = imm"
proof -
  define m where "m = nat (imm mod 4096)"
  define low where "low = opc + 128 * (rd + 32 * (f3 + 8 * rs1))"
  have low_lt: "low < 2 ^ 20" using assms(1-4) by (simp add: low_def)
  have m_lt: "m < 2 ^ (32 - 20)" by (simp add: m_def)
  have "low + 2 ^ 20 * m < 2 ^ 32" using low_lt m_lt by simp
  moreover have "opc + 128 * (rd + 32 * (f3 + 8 * (rs1 + 32 * m))) = low + 2 ^ 20 * m"
    by (simp add: low_def algebra_simps)
  ultimately have u: "unat (encode_I imm rs1 f3 rd opc) = low + 2 ^ 20 * m"
    by (simp add: encode_I_def m_def unat_of_nat_word32 del: of_nat_add of_nat_mult)
  have "sint (encode_I imm rs1 f3 rd opc) div 2 ^ 20 = (if m < 2 ^ (31 - 20) then int m else int m - 2 ^ (32 - 20))"
    using u low_lt m_lt by (intro sint_div_pow) simp_all
  moreover have "(if m < 2 ^ (31 - 20) then int m else int m - 2 ^ (32 - 20)) = imm"
    using assms(5,6) mod_two_n_signed [of 2048 imm] by (simp add: m_def) arith
  ultimately show ?thesis by (simp add: FIELD_IMM_I_eq)
qed

lemma FIELD_IMM_S_range: "-2048 \<le> FIELD_IMM_S w \<and> FIELD_IMM_S w < 2048"
proof -
  have lo: "- (2 ^ 31) \<le> sint w" using sint_greater_eq [of w] by simp
  have hi: "sint w < 2 ^ 31" using sint_less [of w] by simp
  have "- (2 ^ 31) div 2 ^ 25 \<le> sint w div (2 ^ 25 :: int)" using lo by (rule zdiv_mono1) simp
  moreover have "sint w div 2 ^ 25 \<le> (2 ^ 31 - 1) div (2 ^ 25 :: int)" using hi by (intro zdiv_mono1) simp_all
  moreover have "FIELD_RD w < 32" by (simp add: FIELD_RD_eq)
  ultimately show ?thesis by (simp add: FIELD_IMM_S_eq)
qed

lemma encode_S_imm:
  assumes "opc < 128" "f3 < 8" "rs1 < 32" "rs2 < 32" "-2048 \<le> imm" "imm < 2048"
  shows "FIELD_IMM_S (encode_S imm rs2 rs1 f3 opc) = imm"
proof -
  define m where "m = nat (imm mod 4096 div 32)"
  define lo5 where "lo5 = nat (imm mod 32)"
  define x where "x = lo5 + 32 * (f3 + 8 * (rs1 + 32 * rs2))"
  have lo5_lt: "lo5 < 32" by (simp add: lo5_def)
  have low_lt: "opc + 128 * x < 2 ^ 25" using assms(1-4) lo5_lt by (simp add: x_def)
  have m_lt: "m < 2 ^ (32 - 25)" by (simp add: m_def)
  have "opc + 128 * x + 2 ^ 25 * m < 2 ^ 32" using low_lt m_lt by simp
  moreover have "opc + 128 * (lo5 + 32 * (f3 + 8 * (rs1 + 32 * (rs2 + 32 * m)))) = opc + 128 * x + 2 ^ 25 * m"
    by (simp add: x_def algebra_simps)
  ultimately have u: "unat (encode_S imm rs2 rs1 f3 opc) = opc + 128 * x + 2 ^ 25 * m"
    by (simp add: encode_S_def m_def lo5_def unat_of_nat_word32 del: of_nat_add of_nat_mult)
  have "sint (encode_S imm rs2 rs1 f3 opc) div 2 ^ 25 = (if m < 2 ^ (31 - 25) then int m else int m - 2 ^ (32 - 25))"
    using u low_lt m_lt by (intro sint_div_pow) simp_all
  moreover have "(if m < 2 ^ (31 - 25) then int m else int m - 2 ^ (32 - 25)) = imm div 32"
  proof -
    have "imm mod 4096 div 32 = (if 0 \<le> imm then imm div 32 else imm div 32 + 128)"
      using assms(5,6) mod_two_n_signed [of 2048 imm] by auto
    moreover have "-64 \<le> imm div 32" "imm div 32 < 64" using assms(5,6) by auto
    ultimately show ?thesis using assms(5,6) by (simp add: m_def) arith
  qed
  moreover have "FIELD_RD (encode_S imm rs2 rs1 f3 opc) = lo5"
  proof -
    define y where "y = f3 + 8 * (rs1 + 32 * (rs2 + 32 * m))"
    have u2: "unat (encode_S imm rs2 rs1 f3 opc) = opc + 128 * (lo5 + 32 * y)"
      using u by (simp add: x_def y_def algebra_simps)
    show ?thesis
      unfolding FIELD_RD_eq u2 using assms(1) lo5_lt by (simp only: horner_div horner_mod)
  qed
  ultimately show ?thesis by (simp add: FIELD_IMM_S_eq lo5_def)
qed
lemma encode_I_as_R:
  "encode_I imm rs1 f3 rd opc =
     encode_R (nat (imm mod 4096) div 32) (nat (imm mod 4096) mod 32) rs1 f3 rd opc"
  by (simp add: encode_I_def encode_R_def)

lemma encode_I_fields:
  fixes imm :: int
  assumes "opc < 128" "rd < 32" "f3 < 8" "rs1 < 32"
  defines "w \<equiv> encode_I imm rs1 f3 rd opc"
  shows "FIELD_OPCODE w = opc \<and> FIELD_RD w = rd \<and> FIELD_FUNC3 w = f3 \<and> FIELD_RS1 w = rs1"
proof -
  have "nat (imm mod 4096) < 4096" by simp
  then have "nat (imm mod 4096) div 32 < 128" by simp
  with assms(1-4) show ?thesis
    unfolding w_def encode_I_as_R by (simp add: encode_R_fields)
qed

subsection \<open>The scrambled J immediate\<close>

text \<open>
  \<open>FIELD_OFFSET\<close> reassembles the 21-bit jump offset from four groups of bits; the proof is
  bit by bit (\<open>bit_eqI\<close>), with the sign bit replicated by \<open>signed_take_bit\<close>.
\<close>

lemma bit_0xFF000: "bit (0xFF000 :: int) n \<longleftrightarrow> 12 \<le> n \<and> n < 20"
proof -
  have "(0xFF000 :: int) = push_bit 12 (mask 8)" by (simp add: push_bit_eq_mult mask_eq_exp_minus_1)
  from bit_push_mask_int [OF this, of n] show ?thesis by simp
qed

lemma bit_0x800: "bit (0x800 :: int) n \<longleftrightarrow> 11 \<le> n \<and> n < 12"
proof -
  have "(0x800 :: int) = push_bit 11 (mask 1)" by (simp add: push_bit_eq_mult mask_eq_exp_minus_1)
  from bit_push_mask_int [OF this, of n] show ?thesis by simp
qed

lemma bit_0x7FE: "bit (0x7FE :: int) n \<longleftrightarrow> 1 \<le> n \<and> n < 11"
proof -
  have "(0x7FE :: int) = push_bit 1 (mask 10)" by (simp add: push_bit_eq_mult mask_eq_exp_minus_1)
  from bit_push_mask_int [OF this, of n] show ?thesis by simp
qed

lemmas bit_offset_masks = bit_0xFF000 bit_0x800 bit_0x7FE

lemma bit_word_0x100000: "bit (0x100000 :: instr) k \<longleftrightarrow> k = 20"
proof -
  have "(0x100000 :: instr) = 2 ^ 20" by simp
  then show ?thesis by (simp only: bit_exp_iff) auto
qed

lemma bit_int_0x100000: "bit (0x100000 :: int) k \<longleftrightarrow> k = 20"
proof -
  have "(0x100000 :: int) = 2 ^ 20" by simp
  then show ?thesis by (simp only: bit_exp_iff) auto
qed

lemma bit_nat_0x100000: "bit (0x100000 :: nat) k \<longleftrightarrow> k = 20"
proof -
  have "(0x100000 :: nat) = 2 ^ 20" by simp
  then show ?thesis by (simp only: bit_exp_iff) auto
qed

lemma bit_FIELD_OFFSET:
  "bit (FIELD_OFFSET w) n \<longleftrightarrow>
     (if n = 0 then False else if n \<le> 10 then bit w (20 + n) else if n = 11 then bit w 20
      else if n \<le> 19 then bit w n else bit w 31)"
proof -
  note defs = FIELD_OFFSET_def bit_simps Let_def bit_offset_masks bit_int_0x100000
  consider "n = 0" | "1 \<le> n \<and> n \<le> 10" | "n = 11" | "12 \<le> n \<and> n \<le> 19" | "20 \<le> n"
    by linarith
  then show ?thesis
  proof cases
    case 1
    then show ?thesis by (simp add: defs)
  next
    case 2
    then have "n < 11" "min 31 (20 + n) = 20 + n" "min 31 (9 + n) = 9 + n" "min 31 n = n" "n \<noteq> 0" "\<not> 20 \<le> n"
      by arith+
    with 2 show ?thesis by (simp add: defs)
  next
    case 3
    then show ?thesis by (simp add: defs)
  next
    case 4
    then have "min 31 n = n" "\<not> n < 11" "\<not> 20 \<le> n" "n \<noteq> 11" "\<not> n \<le> 10" by arith+
    with 4 show ?thesis by (simp add: defs)
  next
    case 5
    then have "\<not> n < 20" "\<not> n < 12" "\<not> n < 11" "\<not> n \<le> 19" "\<not> n \<le> 10" "n \<noteq> 11" "n \<noteq> 0"
      "min 31 (31 + (n - 20)) = 31" by arith+
    with 5 show ?thesis by (simp add: defs)
  qed
qed

lemma bit_encode_J_high:
  assumes "12 \<le> k"
  shows "bit (encode_J off rd opc) k \<longleftrightarrow>
           (if k = 31 then bit off 20 else if 21 \<le> k \<and> k \<le> 30 then bit off (k - 20)
            else if k = 20 then bit off 11 else k \<le> 19 \<and> bit off k)"
proof -
  note defs = encode_J_def bit_simps Let_def bit_word_0x100000 bit_int_0x100000 bit_nat_0x100000
  consider "k = 31" | "21 \<le> k \<and> k \<le> 30" | "k = 20" | "12 \<le> k \<and> k \<le> 19" | "31 < k"
    using assms by linarith
  then show ?thesis
  proof cases
    case 1
    then show ?thesis by (simp add: defs)
  next
    case 2
    then have "k \<noteq> 31" "k \<noteq> 20" "\<not> k < 20" "\<not> k < 12" "k < 32" "k - 21 < 10" "Suc (k - 21) = k - 20"
      "21 \<le> k" "\<not> k - 12 < 8" "\<not> k - 7 < 5" by arith+
    then show ?thesis by (simp add: defs)
  next
    case 3
    then show ?thesis by (simp add: defs)
  next
    case 4
    then have "k = 12 \<or> k = 13 \<or> k = 14 \<or> k = 15 \<or> k = 16 \<or> k = 17 \<or> k = 18 \<or> k = 19"
      by arith
    then show ?thesis by (elim disjE) (simp_all add: defs)
  next
    case 5
    then have "\<not> k < 32" "k \<noteq> 31" "k \<noteq> 20" "\<not> k \<le> 30" "\<not> k \<le> 19" by arith+
    then show ?thesis by (simp add: defs)
  qed
qed

lemma encode_J_offset:
  assumes "- (2 ^ 20) \<le> off" "off < 2 ^ 20" "even off"
  shows "FIELD_OFFSET (encode_J off rd opc) = off"
proof (rule bit_eqI)
  fix n :: nat
  have s: "bit off m \<longleftrightarrow> bit off (min 20 m)" for m
  proof -
    have "signed_take_bit 20 off = off"
      using assms(1,2) by (intro signed_take_bit_int_eq_self) simp_all
    then show ?thesis using bit_signed_take_bit_iff [of 20 off m] by simp
  qed
  have hi: "20 \<le> m \<Longrightarrow> bit off m \<longleftrightarrow> bit off 20" for m using s [of m] by simp
  have z: "\<not> bit off 0" using assms(3) by (simp add: bit_0)
  consider "n = 0" | "1 \<le> n \<and> n \<le> 10" | "n = 11" | "12 \<le> n \<and> n \<le> 19" | "20 \<le> n"
    by linarith
  then show "bit (FIELD_OFFSET (encode_J off rd opc)) n \<longleftrightarrow> bit off n"
  proof cases
    case 1
    then show ?thesis by (simp add: bit_FIELD_OFFSET z)
  next
    case 2
    then have "12 \<le> 20 + n" "20 + n \<noteq> 31" "21 \<le> 20 + n \<and> 20 + n \<le> 30" "20 + n - 20 = n" "n \<noteq> 0" "n \<le> 10"
      by arith+
    then show ?thesis by (simp add: bit_FIELD_OFFSET bit_encode_J_high)
  next
    case 3
    then show ?thesis by (simp add: bit_FIELD_OFFSET bit_encode_J_high)
  next
    case 4
    then have "n \<noteq> 0" "\<not> n \<le> 10" "n \<noteq> 11" "n \<le> 19" "12 \<le> n" "n \<noteq> 31" "n \<noteq> 20" "\<not> 21 \<le> n"
      by arith+
    then show ?thesis by (simp add: bit_FIELD_OFFSET bit_encode_J_high)
  next
    case 5
    then have "n \<noteq> 0" "\<not> n \<le> 10" "n \<noteq> 11" "\<not> n \<le> 19" by arith+
    with 5 show ?thesis by (simp add: bit_FIELD_OFFSET bit_encode_J_high hi [of n])
  qed
qed

lemma encode_J_fields:
  assumes "opc < 128" "rd < 32"
  shows "FIELD_OPCODE (encode_J off rd opc) = opc \<and> FIELD_RD (encode_J off rd opc) = rd"
proof -
  have o: "encode_J off rd opc AND mask 7 = word_of_nat opc"
  proof (rule bit_eqI)
    fix n
    have "7 \<le> n \<Longrightarrow> \<not> bit opc n" using assms(1) by (intro bit_small_nat [of opc 7]) simp_all
    then show "bit (encode_J off rd opc AND mask 7) n \<longleftrightarrow> bit (word_of_nat opc :: instr) n"
      by (cases "n < 7") (simp_all add: encode_J_def bit_simps Let_def)
  qed
  have r: "drop_bit 7 (encode_J off rd opc) AND mask 5 = word_of_nat rd"
  proof (rule bit_eqI)
    fix n
    have "5 \<le> n \<Longrightarrow> \<not> bit rd n" using assms(2) by (intro bit_small_nat [of rd 5]) simp_all
    then show "bit (drop_bit 7 (encode_J off rd opc) AND mask 5) n \<longleftrightarrow> bit (word_of_nat rd :: instr) n"
      by (cases "n < 5") (simp_all add: encode_J_def bit_simps Let_def)
  qed
  have "unat (word_of_nat opc :: instr) = opc" "unat (word_of_nat rd :: instr) = rd"
    using assms by (simp_all add: unat_of_nat_word32)
  with o r show ?thesis by (simp add: FIELD_OPCODE_def FIELD_RD_def mask_consts)
qed

end
