(* ===== verification/Decode_Table.thy ===== *)
theory Decode_Table
  imports Instr_Fields
begin

text \<open>
  The operation descriptors and the three-level decode table that \<open>printInstruction\<close>
  (\<open>src/output.c\<close>) indexes as \<open>op_table[opcode].level2_table[func3].level3_table[func7]\<close>.
  The types and the table itself live in the simulator's \<open>fu.h\<close>/\<open>fu.c\<close>, outside
  \<open>src/\<close>: they are modelled from spec sections 3 and 4.1. A C array is a list indexed
  with \<open>!\<close>; a \<open>NULL\<close> sub-table pointer is \<open>None\<close>; a \<open>NULL\<close> mnemonic is
  \<open>name = None\<close>. The traversal of section 4.1 is \<open>op_lookup\<close>, with bounds-checked
  reads (\<open>arr_get\<close>), so that an out-of-range read is the value \<open>None\<close>; the
  well-formedness invariant \<open>wf_op_table\<close> says every array has its field's width,
  and under it no read is out of range.
\<close>

subsection \<open>Descriptors\<close>

datatype fu_group =
  FU_GROUP_INT | FU_GROUP_ADD | FU_GROUP_MULT | FU_GROUP_DIV | FU_GROUP_MEM | FU_GROUP_BRANCH

datatype operation =
  OPERATION_ADD | OPERATION_SUB | OPERATION_SLL | OPERATION_SLT | OPERATION_XOR
| OPERATION_SRL | OPERATION_SRA | OPERATION_OR | OPERATION_AND | OPERATION_MULT
| OPERATION_DIV | OPERATION_LOAD | OPERATION_STORE | OPERATION_JAL | OPERATION_JALR
| OPERATION_BEQ | OPERATION_BNE

datatype data_type = DATA_TYPE_W | DATA_TYPE_F

record op_info =
  name :: "string option"
  fu_group_num :: fu_group
  operation :: operation
  data_type :: data_type

text \<open>A level-2 cell: a pointer to a level-3 table (\<open>None\<close> = \<open>NULL\<close>) and a descriptor.\<close>

record op_level2 =
  level3_table :: "op_info list option"
  l2_info :: op_info

record op_level1 =
  level2_table :: "op_level2 list option"
  l1_info :: op_info

type_synonym op_table_t = "op_level1 list"

subsection \<open>The traversal of spec section 4.1\<close>

datatype depth = Level1 | Level2 | Level3

definition arr_get :: "'a list \<Rightarrow> nat \<Rightarrow> 'a option" where
  "arr_get xs i = (if i < length xs then Some (xs ! i) else None)"

definition op_lookup :: "op_table_t \<Rightarrow> instr \<Rightarrow> (depth \<times> op_info) option" where
  "op_lookup tbl w =
     (case arr_get tbl (FIELD_OPCODE w) of
        None \<Rightarrow> None
      | Some e1 \<Rightarrow>
          (case level2_table e1 of
             None \<Rightarrow> Some (Level1, l1_info e1)
           | Some t2 \<Rightarrow>
               (case arr_get t2 (FIELD_FUNC3 w) of
                  None \<Rightarrow> None
                | Some e2 \<Rightarrow>
                    (case level3_table e2 of
                       None \<Rightarrow> Some (Level2, l2_info e2)
                     | Some t3 \<Rightarrow> map_option (\<lambda>i. (Level3, i)) (arr_get t3 (FIELD_FUNC7 w))))))"

definition wf_op_table :: "op_table_t \<Rightarrow> bool" where
  "wf_op_table tbl \<longleftrightarrow>
     length tbl = 128 \<and>
     list_all (\<lambda>e1. case level2_table e1 of
                       None \<Rightarrow> True
                     | Some t2 \<Rightarrow> length t2 = 8 \<and>
                         list_all (\<lambda>e2. case level3_table e2 of
                                          None \<Rightarrow> True
                                        | Some t3 \<Rightarrow> length t3 = 128) t2) tbl"

subsection \<open>The table\<close>

text \<open>
  The RV32I/RV32F subset the simulator implements (the mnemonics spec section 8 uses,
  \<open>add\<close>, \<open>lw\<close>, \<open>jal\<close>, and their siblings). Every unassigned cell carries the
  unnamed descriptor \<open>no_op\<close>. \<open>OP-FP\<close> is selected by \<open>func7\<close>; its \<open>func3\<close> is the
  rounding mode, so every level-2 cell of opcode \<open>0x53\<close> points to the same level-3 table.
\<close>

definition no_op :: op_info where
  "no_op = \<lparr>name = None, fu_group_num = FU_GROUP_INT, operation = OPERATION_ADD,
            data_type = DATA_TYPE_W\<rparr>"

definition mk_op :: "string \<Rightarrow> fu_group \<Rightarrow> operation \<Rightarrow> data_type \<Rightarrow> op_info" where
  "mk_op n g op dt = \<lparr>name = Some n, fu_group_num = g, operation = op, data_type = dt\<rparr>"

definition leaf2 :: "op_info \<Rightarrow> op_level2" where
  "leaf2 i = \<lparr>level3_table = None, l2_info = i\<rparr>"

definition node2 :: "(nat \<Rightarrow> op_info) \<Rightarrow> op_level2" where
  "node2 f = \<lparr>level3_table = Some (map f [0..<128]), l2_info = no_op\<rparr>"

text \<open>Level 3 of opcode \<open>OP\<close> (\<open>0x33\<close>), by \<open>func3\<close> then \<open>func7\<close>.\<close>

definition op_r_func7 :: "nat \<Rightarrow> nat \<Rightarrow> op_info" where
  "op_r_func7 f3 f7 =
     (if f3 = 0 \<and> f7 = 0 then mk_op ''add'' FU_GROUP_INT OPERATION_ADD DATA_TYPE_W
      else if f3 = 0 \<and> f7 = 32 then mk_op ''sub'' FU_GROUP_INT OPERATION_SUB DATA_TYPE_W
      else if f3 = 1 \<and> f7 = 0 then mk_op ''sll'' FU_GROUP_INT OPERATION_SLL DATA_TYPE_W
      else if f3 = 2 \<and> f7 = 0 then mk_op ''slt'' FU_GROUP_INT OPERATION_SLT DATA_TYPE_W
      else if f3 = 4 \<and> f7 = 0 then mk_op ''xor'' FU_GROUP_INT OPERATION_XOR DATA_TYPE_W
      else if f3 = 5 \<and> f7 = 0 then mk_op ''srl'' FU_GROUP_INT OPERATION_SRL DATA_TYPE_W
      else if f3 = 5 \<and> f7 = 32 then mk_op ''sra'' FU_GROUP_INT OPERATION_SRA DATA_TYPE_W
      else if f3 = 6 \<and> f7 = 0 then mk_op ''or'' FU_GROUP_INT OPERATION_OR DATA_TYPE_W
      else if f3 = 7 \<and> f7 = 0 then mk_op ''and'' FU_GROUP_INT OPERATION_AND DATA_TYPE_W
      else no_op)"

text \<open>Level 3 of opcode \<open>OP-FP\<close> (\<open>0x53\<close>), by \<open>func7\<close>.\<close>

definition op_fp_func7 :: "nat \<Rightarrow> op_info" where
  "op_fp_func7 f7 =
     (if f7 = 0 then mk_op ''fadd.s'' FU_GROUP_ADD OPERATION_ADD DATA_TYPE_F
      else if f7 = 4 then mk_op ''fsub.s'' FU_GROUP_ADD OPERATION_SUB DATA_TYPE_F
      else if f7 = 8 then mk_op ''fmul.s'' FU_GROUP_MULT OPERATION_MULT DATA_TYPE_F
      else if f7 = 12 then mk_op ''fdiv.s'' FU_GROUP_DIV OPERATION_DIV DATA_TYPE_F
      else no_op)"

text \<open>Level 2 of each opcode with a level-2 table, by \<open>func3\<close>.\<close>

definition op_func3 :: "nat \<Rightarrow> nat \<Rightarrow> op_level2" where
  "op_func3 opc f3 =
     (if opc = 0x03 then
        leaf2 (if f3 = 2 then mk_op ''lw'' FU_GROUP_MEM OPERATION_LOAD DATA_TYPE_W else no_op)
      else if opc = 0x07 then
        leaf2 (if f3 = 2 then mk_op ''flw'' FU_GROUP_MEM OPERATION_LOAD DATA_TYPE_F else no_op)
      else if opc = 0x13 then
        leaf2 (if f3 = 0 then mk_op ''addi'' FU_GROUP_INT OPERATION_ADD DATA_TYPE_W
               else if f3 = 2 then mk_op ''slti'' FU_GROUP_INT OPERATION_SLT DATA_TYPE_W
               else if f3 = 4 then mk_op ''xori'' FU_GROUP_INT OPERATION_XOR DATA_TYPE_W
               else if f3 = 6 then mk_op ''ori'' FU_GROUP_INT OPERATION_OR DATA_TYPE_W
               else if f3 = 7 then mk_op ''andi'' FU_GROUP_INT OPERATION_AND DATA_TYPE_W
               else no_op)
      else if opc = 0x23 then
        leaf2 (if f3 = 2 then mk_op ''sw'' FU_GROUP_MEM OPERATION_STORE DATA_TYPE_W else no_op)
      else if opc = 0x27 then
        leaf2 (if f3 = 2 then mk_op ''fsw'' FU_GROUP_MEM OPERATION_STORE DATA_TYPE_F else no_op)
      else if opc = 0x33 then
        (if f3 = 3 then leaf2 no_op else node2 (op_r_func7 f3))
      else if opc = 0x53 then node2 op_fp_func7
      else if opc = 0x63 then
        leaf2 (if f3 = 0 then mk_op ''beq'' FU_GROUP_BRANCH OPERATION_BEQ DATA_TYPE_W
               else if f3 = 1 then mk_op ''bne'' FU_GROUP_BRANCH OPERATION_BNE DATA_TYPE_W
               else no_op)
      else
        leaf2 (if f3 = 0 then mk_op ''jalr'' FU_GROUP_BRANCH OPERATION_JALR DATA_TYPE_W else no_op))"

definition has_level2 :: "nat \<Rightarrow> bool" where
  "has_level2 opc \<longleftrightarrow> opc \<in> {0x03, 0x07, 0x13, 0x23, 0x27, 0x33, 0x53, 0x63, 0x67}"

definition op_opcode :: "nat \<Rightarrow> op_level1" where
  "op_opcode opc =
     (if has_level2 opc then \<lparr>level2_table = Some (map (op_func3 opc) [0..<8]), l1_info = no_op\<rparr>
      else if opc = 0x6F then
        \<lparr>level2_table = None, l1_info = mk_op ''jal'' FU_GROUP_BRANCH OPERATION_JAL DATA_TYPE_W\<rparr>
      else \<lparr>level2_table = None, l1_info = no_op\<rparr>)"

definition op_table :: op_table_t where
  "op_table = map op_opcode [0..<128]"

subsection \<open>Well-formed tables: every read is in range\<close>

lemma arr_get_Some [simp]: "i < length xs \<Longrightarrow> arr_get xs i = Some (xs ! i)"
  by (simp add: arr_get_def)

lemma arr_get_None [simp]: "length xs \<le> i \<Longrightarrow> arr_get xs i = None"
  by (simp add: arr_get_def)

lemma wf_op_table_length: "wf_op_table tbl \<Longrightarrow> length tbl = 128"
  by (simp add: wf_op_table_def)

lemma wf_op_table_level2:
  assumes "wf_op_table tbl" "opc < 128" "level2_table (tbl ! opc) = Some t2"
  shows "length t2 = 8"
  using assms by (auto simp: wf_op_table_def list_all_length)

lemma wf_op_table_level3:
  assumes "wf_op_table tbl" "opc < 128" "level2_table (tbl ! opc) = Some t2" "f3 < 8"
    and "level3_table (t2 ! f3) = Some t3"
  shows "length t3 = 128"
proof -
  have "length t2 = 8" using assms(1-3) by (rule wf_op_table_level2)
  with assms show ?thesis by (fastforce simp: wf_op_table_def list_all_length)
qed

lemmas wf_op_table_facts = wf_op_table_length wf_op_table_level2 wf_op_table_level3

text \<open>
  The traversal unfolded at each depth, for a well-formed table: the opcode cell decides
  whether \<open>func3\<close> is consulted, the level-2 cell whether \<open>func7\<close> is.
\<close>

lemma op_lookup_wf:
  assumes "wf_op_table tbl"
  shows "op_lookup tbl w =
    (let e1 = tbl ! FIELD_OPCODE w in
     case level2_table e1 of
       None \<Rightarrow> Some (Level1, l1_info e1)
     | Some t2 \<Rightarrow>
         (let e2 = t2 ! FIELD_FUNC3 w in
          case level3_table e2 of
            None \<Rightarrow> Some (Level2, l2_info e2)
          | Some t3 \<Rightarrow> Some (Level3, t3 ! FIELD_FUNC7 w)))"
proof -
  have opc: "FIELD_OPCODE w < length tbl"
    using assms by (simp add: wf_op_table_length field_simps_rv)
  show ?thesis
  proof (cases "level2_table (tbl ! FIELD_OPCODE w)")
    case None
    with opc show ?thesis by (simp add: op_lookup_def)
  next
    case (Some t2)
    note l2 = this
    have f3: "FIELD_FUNC3 w < length t2"
      using wf_op_table_level2 [OF assms _ l2] by (simp add: field_simps_rv)
    show ?thesis
    proof (cases "level3_table (t2 ! FIELD_FUNC3 w)")
      case None
      with opc l2 f3 show ?thesis by (simp add: op_lookup_def)
    next
      case (Some t3)
      note l3 = this
      have "FIELD_FUNC7 w < length t3"
        using wf_op_table_level3 [OF assms _ l2 _ l3] by (simp add: field_simps_rv)
      with opc l2 f3 l3 show ?thesis by (simp add: op_lookup_def)
    qed
  qed
qed

lemma op_lookup_wf_Some:
  assumes "wf_op_table tbl"
  shows "\<exists>d i. op_lookup tbl w = Some (d, i)"
  using op_lookup_wf [OF assms, of w] by (auto simp: Let_def split: option.splits)

subsection \<open>Properties of every cell\<close>

text \<open>
  \<open>all_cells P tbl\<close>: every terminal cell, with its depth and opcode, satisfies \<open>P\<close>.
  It is executable, so a property of the concrete table is checked by evaluation, and
  the traversal then only ever returns cells that satisfy it.
\<close>

definition all_cells :: "(depth \<Rightarrow> nat \<Rightarrow> op_info \<Rightarrow> bool) \<Rightarrow> op_table_t \<Rightarrow> bool" where
  "all_cells P tbl \<longleftrightarrow>
     list_all (\<lambda>opc.
       case level2_table (tbl ! opc) of
         None \<Rightarrow> P Level1 opc (l1_info (tbl ! opc))
       | Some t2 \<Rightarrow>
           list_all (\<lambda>e2. case level3_table e2 of
                            None \<Rightarrow> P Level2 opc (l2_info e2)
                          | Some t3 \<Rightarrow> list_all (P Level3 opc) t3) t2) [0..<128]"

lemma all_cells_lookup:
  assumes wf: "wf_op_table tbl" and all: "all_cells P tbl" and lk: "op_lookup tbl w = Some (d, i)"
  shows "P d (FIELD_OPCODE w) i"
proof -
  let ?opc = "FIELD_OPCODE w"
  have opc: "?opc < 128" by (simp add: field_simps_rv)
  have cell: "case level2_table (tbl ! ?opc) of
         None \<Rightarrow> P Level1 ?opc (l1_info (tbl ! ?opc))
       | Some t2 \<Rightarrow>
           list_all (\<lambda>e2. case level3_table e2 of
                            None \<Rightarrow> P Level2 ?opc (l2_info e2)
                          | Some t3 \<Rightarrow> list_all (P Level3 ?opc) t3) t2"
    using all opc by (simp add: all_cells_def list_all_iff)
  show ?thesis
  proof (cases "level2_table (tbl ! ?opc)")
    case None
    with lk cell show ?thesis by (simp add: op_lookup_wf [OF wf])
  next
    case (Some t2)
    note l2 = this
    have f3: "FIELD_FUNC3 w < length t2"
      using wf_op_table_level2 [OF wf opc l2] by (simp add: field_simps_rv)
    from cell l2 f3 have cell2: "case level3_table (t2 ! FIELD_FUNC3 w) of
          None \<Rightarrow> P Level2 ?opc (l2_info (t2 ! FIELD_FUNC3 w))
        | Some t3 \<Rightarrow> list_all (P Level3 ?opc) t3"
      by (simp add: list_all_length)
    show ?thesis
    proof (cases "level3_table (t2 ! FIELD_FUNC3 w)")
      case None
      with lk cell2 l2 show ?thesis by (simp add: op_lookup_wf [OF wf])
    next
      case (Some t3)
      have f7: "FIELD_FUNC7 w < length t3"
        using wf_op_table_level3 [OF wf opc l2 _ Some] by (simp add: field_simps_rv)
      with cell2 Some have "P Level3 ?opc (t3 ! FIELD_FUNC7 w)"
        by (simp add: list_all_length)
      with lk l2 Some show ?thesis by (simp add: op_lookup_wf [OF wf])
    qed
  qed
qed

end
