(* ===== verification/Disasm.thy ===== *)
theory Disasm
  imports Decode_Table
begin

text \<open>
  \<open>printInstruction\<close> of \<open>src/output.c\<close> (lines 133--221): the disassembler. It
  writes \<open>NOP\<close> for the sentinel, otherwise walks the decode table one level per
  \<open>if\<close> (a cell with a \<open>NULL\<close> sub-table is terminal), writes the raw word in hex
  when the terminal descriptor has no mnemonic, and otherwise dispatches on the
  descriptor's functional-unit group and operation to a \<open>printf\<close> format. The model
  returns the characters written. The table is a parameter (the C code reads the global
  \<open>op_table\<close>), so that the theorems hold for every table; \<open>Decode_Table.op_table\<close> is
  the instance. The C \<open>switch\<close> statements without a \<open>default\<close> write nothing for an
  unlisted case; the model keeps that as the empty string.
\<close>

subsection \<open>The code\<close>

text \<open>\<open>printf("0x%.8X", instr)\<close>: the \<open>int\<close> is converted to \<open>unsigned\<close>.\<close>

definition print_unknown :: "instr \<Rightarrow> string" where
  "print_unknown instr = ''0x'' @ fmt_X 8 (unat instr)"

text \<open>A terminal level-1 cell (lines 146--157).\<close>

definition print_level1 :: "string \<Rightarrow> op_info \<Rightarrow> instr \<Rightarrow> string" where
  "print_level1 n info instr =
     (case fu_group_num info of
        FU_GROUP_BRANCH \<Rightarrow>
          (case operation info of
             OPERATION_JAL \<Rightarrow> n @ '' x'' @ fmt_dn (FIELD_RD instr) @ '' #'' @ fmt_d (FIELD_OFFSET instr)
           | _ \<Rightarrow> [])
      | _ \<Rightarrow> n)"

text \<open>Level 2, integer group (lines 165--170).\<close>

definition print_level2_int :: "string \<Rightarrow> instr \<Rightarrow> string" where
  "print_level2_int n instr =
     (if FIELD_OPCODE instr = 0
      then n @ '' x'' @ fmt_dn (FIELD_RD instr) @ '' x'' @ fmt_dn (FIELD_RS1 instr)
             @ '' x'' @ fmt_dn (FIELD_RS2 instr)
      else n @ '' x'' @ fmt_dn (FIELD_RD instr) @ '' x'' @ fmt_dn (FIELD_RS1 instr)
             @ '' #'' @ fmt_d (FIELD_IMM_I instr))"

text \<open>Level 2, memory group (lines 171--186).\<close>

definition print_level2_mem :: "string \<Rightarrow> op_info \<Rightarrow> instr \<Rightarrow> string" where
  "print_level2_mem n info instr =
     (case data_type info of
        DATA_TYPE_W \<Rightarrow>
          (if operation info = OPERATION_LOAD
           then n @ '' x'' @ fmt_dn (FIELD_RD instr) @ '' ('' @ fmt_d (FIELD_IMM_I instr)
                  @ '')x'' @ fmt_dn (FIELD_RS1 instr)
           else n @ '' x'' @ fmt_dn (FIELD_RS2 instr) @ '' ('' @ fmt_d (FIELD_IMM_S instr)
                  @ '')x'' @ fmt_dn (FIELD_RS1 instr))
      | DATA_TYPE_F \<Rightarrow>
          (if operation info = OPERATION_LOAD
           then n @ '' f'' @ fmt_dn (FIELD_RD instr) @ '' ('' @ fmt_d (FIELD_IMM_I instr)
                  @ '')x'' @ fmt_dn (FIELD_RS1 instr)
           else n @ '' f'' @ fmt_dn (FIELD_RS2 instr) @ '' ('' @ fmt_d (FIELD_IMM_S instr)
                  @ '')x'' @ fmt_dn (FIELD_RS1 instr)))"

text \<open>Level 2, branch group (lines 187--197).\<close>

definition print_level2_branch :: "string \<Rightarrow> op_info \<Rightarrow> instr \<Rightarrow> string" where
  "print_level2_branch n info instr =
     (case operation info of
        OPERATION_JALR \<Rightarrow> n @ '' x'' @ fmt_dn (FIELD_RD instr) @ '' x'' @ fmt_dn (FIELD_RS1 instr)
      | OPERATION_BEQ \<Rightarrow> n @ '' x'' @ fmt_dn (FIELD_RS1 instr) @ '' x'' @ fmt_dn (FIELD_RS2 instr)
                          @ '' #'' @ fmt_d (FIELD_IMM_S instr)
      | OPERATION_BNE \<Rightarrow> n @ '' x'' @ fmt_dn (FIELD_RS1 instr) @ '' x'' @ fmt_dn (FIELD_RS2 instr)
                          @ '' #'' @ fmt_d (FIELD_IMM_S instr)
      | _ \<Rightarrow> [])"

text \<open>A terminal level-2 cell (lines 163--200).\<close>

definition print_level2 :: "string \<Rightarrow> op_info \<Rightarrow> instr \<Rightarrow> string" where
  "print_level2 n info instr =
     (case fu_group_num info of
        FU_GROUP_INT \<Rightarrow> print_level2_int n instr
      | FU_GROUP_MEM \<Rightarrow> print_level2_mem n info instr
      | FU_GROUP_BRANCH \<Rightarrow> print_level2_branch n info instr
      | _ \<Rightarrow> n)"

text \<open>A level-3 cell (lines 206--218).\<close>

definition print_level3 :: "string \<Rightarrow> op_info \<Rightarrow> instr \<Rightarrow> string" where
  "print_level3 n info instr =
     (case fu_group_num info of
        FU_GROUP_INT \<Rightarrow> n @ '' x'' @ fmt_dn (FIELD_RD instr) @ '' x'' @ fmt_dn (FIELD_RS1 instr)
                          @ '' x'' @ fmt_dn (FIELD_RS2 instr)
      | FU_GROUP_ADD \<Rightarrow> n @ '' f'' @ fmt_dn (FIELD_RD instr) @ '' f'' @ fmt_dn (FIELD_RS1 instr)
                          @ '' f'' @ fmt_dn (FIELD_RS2 instr)
      | FU_GROUP_MULT \<Rightarrow> n @ '' f'' @ fmt_dn (FIELD_RD instr) @ '' f'' @ fmt_dn (FIELD_RS1 instr)
                          @ '' f'' @ fmt_dn (FIELD_RS2 instr)
      | FU_GROUP_DIV \<Rightarrow> n @ '' f'' @ fmt_dn (FIELD_RD instr) @ '' f'' @ fmt_dn (FIELD_RS1 instr)
                          @ '' f'' @ fmt_dn (FIELD_RS2 instr)
      | _ \<Rightarrow> n)"

text \<open>The whole routine (lines 133--221): three \<open>if\<close> branches, one per table depth.\<close>

definition printInstruction :: "op_table_t \<Rightarrow> instr \<Rightarrow> string" where
  "printInstruction tbl instr =
     (if instr = NOP then ''NOP''
      else
        (let e1 = tbl ! FIELD_OPCODE instr in
         case level2_table e1 of
           None \<Rightarrow>
             (case name (l1_info e1) of
                None \<Rightarrow> print_unknown instr
              | Some n \<Rightarrow> print_level1 n (l1_info e1) instr)
         | Some t2 \<Rightarrow>
             (let e2 = t2 ! FIELD_FUNC3 instr in
              case level3_table e2 of
                None \<Rightarrow>
                  (case name (l2_info e2) of
                     None \<Rightarrow> print_unknown instr
                   | Some n \<Rightarrow> print_level2 n (l2_info e2) instr)
              | Some t3 \<Rightarrow>
                  (let i3 = t3 ! FIELD_FUNC7 instr in
                   case name i3 of
                     None \<Rightarrow> print_unknown instr
                   | Some n \<Rightarrow> print_level3 n i3 instr))))"

text \<open>The code's dispatch once the descriptor and its depth are known.\<close>

definition render :: "depth \<Rightarrow> op_info \<Rightarrow> instr \<Rightarrow> string" where
  "render d i instr =
     (case name i of
        None \<Rightarrow> print_unknown instr
      | Some n \<Rightarrow>
          (case d of
             Level1 \<Rightarrow> print_level1 n i instr
           | Level2 \<Rightarrow> print_level2 n i instr
           | Level3 \<Rightarrow> print_level3 n i instr))"

subsection \<open>The contract: spec section 4.2\<close>

text \<open>
  What a disassembly says, independently of its punctuation: nothing decoded (the
  sentinel), the raw word, or a mnemonic with a list of operands. \<open>DBadRead\<close> is a
  traversal that would read outside an array; a well-formed table never does.
\<close>

datatype operand = XReg nat | FReg nat | Imm int | MemRef int nat

datatype disasm = DNop | DRaw instr | DOp string "operand list" | DBadRead

text \<open>The opcode of the register-register integer form (RISC-V \<open>OP\<close>).\<close>

definition REG_REG_OPCODE :: nat where
  "REG_REG_OPCODE = 0x33"

text \<open>The operand table of spec section 4.2, one row per group and operation kind.\<close>

definition spec_operands :: "op_info \<Rightarrow> instr \<Rightarrow> operand list" where
  "spec_operands i w =
     (case fu_group_num i of
        FU_GROUP_INT \<Rightarrow>
          (if FIELD_OPCODE w = REG_REG_OPCODE
           then [XReg (FIELD_RD w), XReg (FIELD_RS1 w), XReg (FIELD_RS2 w)]
           else [XReg (FIELD_RD w), XReg (FIELD_RS1 w), Imm (FIELD_IMM_I w)])
      | FU_GROUP_MEM \<Rightarrow>
          (case (data_type i, operation i) of
             (DATA_TYPE_W, OPERATION_LOAD) \<Rightarrow> [XReg (FIELD_RD w), MemRef (FIELD_IMM_I w) (FIELD_RS1 w)]
           | (DATA_TYPE_W, OPERATION_STORE) \<Rightarrow> [XReg (FIELD_RS2 w), MemRef (FIELD_IMM_S w) (FIELD_RS1 w)]
           | (DATA_TYPE_F, OPERATION_LOAD) \<Rightarrow> [FReg (FIELD_RD w), MemRef (FIELD_IMM_I w) (FIELD_RS1 w)]
           | (DATA_TYPE_F, OPERATION_STORE) \<Rightarrow> [FReg (FIELD_RS2 w), MemRef (FIELD_IMM_S w) (FIELD_RS1 w)]
           | _ \<Rightarrow> [])
      | FU_GROUP_BRANCH \<Rightarrow>
          (case operation i of
             OPERATION_JAL \<Rightarrow> [XReg (FIELD_RD w), Imm (FIELD_OFFSET w)]
           | OPERATION_JALR \<Rightarrow> [XReg (FIELD_RD w), XReg (FIELD_RS1 w)]
           | OPERATION_BEQ \<Rightarrow> [XReg (FIELD_RS1 w), XReg (FIELD_RS2 w), Imm (FIELD_IMM_S w)]
           | OPERATION_BNE \<Rightarrow> [XReg (FIELD_RS1 w), XReg (FIELD_RS2 w), Imm (FIELD_IMM_S w)]
           | _ \<Rightarrow> [])
      | _ \<Rightarrow> [FReg (FIELD_RD w), FReg (FIELD_RS1 w), FReg (FIELD_RS2 w)])"

definition spec_disassemble :: "op_table_t \<Rightarrow> instr \<Rightarrow> disasm" where
  "spec_disassemble tbl w =
     (if w = NOP then DNop
      else case op_lookup tbl w of
             None \<Rightarrow> DBadRead
           | Some (d, i) \<Rightarrow> (case name i of None \<Rightarrow> DRaw w | Some n \<Rightarrow> DOp n (spec_operands i w)))"

text \<open>The code's layout of a disassembly: each operand preceded by one space.\<close>

fun code_operand :: "operand \<Rightarrow> string" where
  "code_operand (XReg r) = '' x'' @ fmt_dn r"
| "code_operand (FReg r) = '' f'' @ fmt_dn r"
| "code_operand (Imm k) = '' #'' @ fmt_d k"
| "code_operand (MemRef k r) = '' ('' @ fmt_d k @ '')x'' @ fmt_dn r"

fun code_layout :: "disasm \<Rightarrow> string" where
  "code_layout DNop = ''NOP''"
| "code_layout (DRaw w) = ''0x'' @ fmt_X 8 (unat w)"
| "code_layout (DOp n ops) = n @ concat (map code_operand ops)"
| "code_layout DBadRead = []"

text \<open>
  Where a descriptor may sit for the code's per-depth formats to agree with the table of
  section 4.2: \<open>jal\<close> alone at level 1; register-immediate integer operations,
  loads, stores, \<open>jalr\<close> and the two branches at level 2; register-register integer
  and floating-point operations at level 3.
\<close>

definition placed :: "depth \<Rightarrow> nat \<Rightarrow> op_info \<Rightarrow> bool" where
  "placed d opc i =
     (case d of
        Level1 \<Rightarrow> fu_group_num i = FU_GROUP_BRANCH \<and> operation i = OPERATION_JAL
      | Level2 \<Rightarrow>
          (case fu_group_num i of
             FU_GROUP_INT \<Rightarrow> opc \<noteq> 0 \<and> opc \<noteq> REG_REG_OPCODE
           | FU_GROUP_MEM \<Rightarrow> operation i \<in> {OPERATION_LOAD, OPERATION_STORE}
           | FU_GROUP_BRANCH \<Rightarrow> operation i \<in> {OPERATION_JALR, OPERATION_BEQ, OPERATION_BNE}
           | _ \<Rightarrow> False)
      | Level3 \<Rightarrow>
          (case fu_group_num i of
             FU_GROUP_INT \<Rightarrow> opc = REG_REG_OPCODE
           | FU_GROUP_MEM \<Rightarrow> False
           | FU_GROUP_BRANCH \<Rightarrow> False
           | _ \<Rightarrow> True))"

definition placed_cell :: "depth \<Rightarrow> nat \<Rightarrow> op_info \<Rightarrow> bool" where
  "placed_cell d opc i \<longleftrightarrow> name i = None \<or> placed d opc i"

definition well_placed :: "op_table_t \<Rightarrow> bool" where
  "well_placed tbl \<longleftrightarrow> wf_op_table tbl \<and> all_cells placed_cell tbl"

text \<open>
  A table the code accepts but whose \<open>jalr\<close> sits at level 1, where the code has no
  format for it (used to exhibit the silent branch of the level-1 \<open>switch\<close>).
\<close>

definition jalr_at_level1 :: op_table_t where
  "jalr_at_level1 = op_table[0x67 := \<lparr>level2_table = None,
       l1_info = mk_op ''jalr'' FU_GROUP_BRANCH OPERATION_JALR DATA_TYPE_W\<rparr>]"

subsection \<open>Evaluation\<close>

text \<open>The facts that evaluate a disassembly of a concrete word by \<open>simp\<close>.\<close>

lemmas disasm_eval =
  printInstruction_def print_unknown_def print_level1_def print_level2_def
  print_level2_int_def print_level2_mem_def print_level2_branch_def print_level3_def
  FIELD_OPCODE_def FIELD_RD_def FIELD_FUNC3_def FIELD_RS1_def FIELD_RS2_def FIELD_FUNC7_def
  FIELD_IMM_I_def FIELD_IMM_S_def FIELD_OFFSET_def NOP_def
  fmt_d_def fmt_u_def fmt_X_def fmt_digits_def nat_digits.simps digit_char_def
  mask_eq_exp_minus_1 not_int_def Let_def replicate_numeral_Cons

lemmas lookup_eval = op_lookup_def arr_get_def

lemmas op_table_eval =
  op_table_def op_opcode_def has_level2_def op_func3_def node2_def leaf2_def
  op_r_func7_def op_fp_func7_def mk_op_def no_op_def

subsection \<open>The routine factors through the table traversal\<close>

lemma printInstruction_lookup_render:
  assumes "instr \<noteq> NOP" "op_lookup tbl instr = Some (d, i)"
  shows "printInstruction tbl instr = render d i instr"
proof (cases "level2_table (tbl ! FIELD_OPCODE instr)")
  case None
  with assms show ?thesis
    by (auto simp: printInstruction_def op_lookup_def render_def arr_get_def
             split: if_splits option.splits)
next
  case (Some t2)
  with assms show ?thesis
    by (auto simp: printInstruction_def op_lookup_def render_def arr_get_def Let_def
             split: if_splits option.splits)
qed

lemma NOP_opcode: "FIELD_OPCODE NOP = 0x13"
  by (simp add: NOP_def FIELD_OPCODE_def)

lemma not_NOP_opcode: "FIELD_OPCODE w \<noteq> 0x13 \<Longrightarrow> w \<noteq> NOP"
  using NOP_opcode by auto

lemma op_lookup_keys:
  assumes "FIELD_OPCODE w = FIELD_OPCODE w'" "FIELD_FUNC3 w = FIELD_FUNC3 w'" "FIELD_FUNC7 w = FIELD_FUNC7 w'"
  shows "op_lookup tbl w = op_lookup tbl w'"
  unfolding op_lookup_def assms ..

lemma mnemonics_nonempty_op_table: "all_cells (\<lambda>_ _ i. name i \<noteq> Some []) op_table"
  by code_simp

lemma length_print_unknown: "length (print_unknown instr) = 10"
  by (simp add: print_unknown_def length_fmt_X_word)

lemma print_unknown_nonempty: "print_unknown instr \<noteq> []"
  using length_print_unknown [of instr] by auto

lemma NL_notin_render:
  assumes "\<And>n. name i = Some n \<Longrightarrow> NL \<notin> set n"
  shows "NL \<notin> set (render d i w)"
  using assms
  by (auto simp: render_def print_unknown_def print_level1_def print_level2_def print_level2_int_def
        print_level2_mem_def print_level2_branch_def print_level3_def NL_notin_fmt_X NL_notin_fmt_d
        split: option.splits depth.splits fu_group.splits operation.splits data_type.splits)

lemma NL_notin_printInstruction:
  assumes "wf_op_table tbl" "all_cells (\<lambda>_ _ i. case name i of None \<Rightarrow> True | Some n \<Rightarrow> NL \<notin> set n) tbl"
  shows "NL \<notin> set (printInstruction tbl w)"
proof (cases "w = NOP")
  case True
  then show ?thesis by (simp add: printInstruction_def)
next
  case False
  obtain d i where lk: "op_lookup tbl w = Some (d, i)"
    using op_lookup_wf_Some [OF assms(1)] by blast
  have "\<forall>n. name i = Some n \<longrightarrow> NL \<notin> set n"
    using all_cells_lookup [OF assms lk] by (simp split: option.splits)
  then have "NL \<notin> set (render d i w)" by (intro NL_notin_render) simp
  with False lk show ?thesis by (simp add: printInstruction_lookup_render)
qed

subsection \<open>Each depth's formats agree with the operand table where the cell is placed\<close>

lemma render_placed_1:
  "placed Level1 (FIELD_OPCODE w) i \<Longrightarrow> print_level1 n i w = n @ concat (map code_operand (spec_operands i w))"
  by (simp add: placed_def print_level1_def spec_operands_def)

lemma render_placed_2:
  "placed Level2 (FIELD_OPCODE w) i \<Longrightarrow> print_level2 n i w = n @ concat (map code_operand (spec_operands i w))"
  by (auto simp: placed_def print_level2_def print_level2_int_def print_level2_mem_def
      print_level2_branch_def spec_operands_def REG_REG_OPCODE_def
      split: fu_group.splits operation.splits data_type.splits)

lemma render_placed_3:
  "placed Level3 (FIELD_OPCODE w) i \<Longrightarrow> print_level3 n i w = n @ concat (map code_operand (spec_operands i w))"
  by (auto simp: placed_def print_level3_def spec_operands_def split: fu_group.splits)


lemma well_placed_lookup:
  assumes "well_placed tbl" "op_lookup tbl w = Some (d, i)" "name i = Some n"
  shows "placed d (FIELD_OPCODE w) i"
proof -
  have "placed_cell d (FIELD_OPCODE w) i"
    using assms(1,2) all_cells_lookup [of tbl placed_cell w d i] by (simp add: well_placed_def)
  with assms(3) show ?thesis by (simp add: placed_cell_def)
qed

lemma well_placed_op_table: "well_placed op_table"
  by code_simp

lemma printInstruction_code_layout:
  assumes "well_placed tbl"
  shows "printInstruction tbl w = code_layout (spec_disassemble tbl w)"
proof (cases "w = NOP")
  case True
  then show ?thesis by (simp add: printInstruction_def spec_disassemble_def)
next
  case False
  have wf: "wf_op_table tbl" using assms by (simp add: well_placed_def)
  obtain d i where lk: "op_lookup tbl w = Some (d, i)"
    using op_lookup_wf_Some [OF wf] by blast
  show ?thesis
  proof (cases "name i")
    case None
    with False lk show ?thesis
      by (simp add: printInstruction_lookup_render render_def print_unknown_def spec_disassemble_def)
  next
    case (Some n)
    have "placed d (FIELD_OPCODE w) i" using assms lk Some by (rule well_placed_lookup)
    with False lk Some show ?thesis
      by (cases d) (simp_all add: printInstruction_lookup_render render_def spec_disassemble_def
                      render_placed_1 render_placed_2 render_placed_3)
  qed
qed

subsection \<open>Properties of the disassembler\<close>

text \<open>
  C1. Refinement of spec section 4.2: on a well-placed table, the disassembly the code
  writes is the spec's abstract disassembly (the sentinel, the raw word, or the mnemonic
  with the operands of the section 4.2 table) laid out with the code's punctuation.
\<close>

theorem printInstruction_refines_spec:
  assumes "well_placed tbl"
  shows "printInstruction tbl w = code_layout (spec_disassemble tbl w)"
  using assms by (rule printInstruction_code_layout)

theorem printInstruction_refines_spec_witness:
  "printInstruction op_table (encode_R 0 7 6 0 5 0x33) =
   code_layout (spec_disassemble op_table (encode_R 0 7 6 0 5 0x33))"
  by (rule printInstruction_refines_spec [OF well_placed_op_table])

text \<open>
  C2. On a well-formed table the three nested branches of \<open>printInstruction\<close> are the
  traversal of spec section 4.1 followed by one dispatch on the descriptor found and its
  depth: the sentinel is written as \<open>NOP\<close>, every other word by \<open>render\<close> of the
  cell \<open>op_lookup\<close> returns.
\<close>

theorem printInstruction_dispatch:
  assumes "wf_op_table tbl"
  shows "printInstruction tbl w =
           (if w = NOP then ''NOP''
            else case op_lookup tbl w of None \<Rightarrow> [] | Some (d, i) \<Rightarrow> render d i w)"
proof (cases "w = NOP")
  case True
  then show ?thesis by (simp add: printInstruction_def)
next
  case False
  obtain d i where lk: "op_lookup tbl w = Some (d, i)"
    using op_lookup_wf_Some [OF assms] by blast
  with False show ?thesis by (simp add: printInstruction_lookup_render)
qed

theorem printInstruction_dispatch_witness:
  "printInstruction op_table (encode_R 0 7 6 0 5 0x33) =
     render Level3 (mk_op ''add'' FU_GROUP_INT OPERATION_ADD DATA_TYPE_W) (encode_R 0 7 6 0 5 0x33)"
proof -
  have wf: "wf_op_table op_table" using well_placed_op_table by (simp add: well_placed_def)
  have h1: "encode_R 0 7 6 0 5 0x33 \<noteq> NOP" by (simp add: encode_R_def NOP_def)
  have h2: "op_lookup op_table (encode_R 0 7 6 0 5 0x33) = Some (Level3, mk_op ''add'' FU_GROUP_INT OPERATION_ADD DATA_TYPE_W)"
    by (simp add: lookup_eval op_table_eval encode_R_def FIELD_OPCODE_def FIELD_FUNC3_def FIELD_FUNC7_def)
  show ?thesis using printInstruction_dispatch [OF wf] h1 h2 by simp
qed

text \<open>
  C3. Roundtrip of the register operands: disassembling an R-type word whose cell is a
  named integer descriptor at level 3 writes exactly the encoded \<open>rd\<close>, \<open>rs1\<close> and \<open>rs2\<close>.
\<close>

theorem printInstruction_encode_R:
  assumes "opc < 128" "rd < 32" "f3 < 8" "rs1 < 32" "rs2 < 32" "f7 < 128" "opc \<noteq> 0x13"
    and "op_lookup tbl (encode_R f7 rs2 rs1 f3 rd opc) = Some (Level3, i)"
    and "name i = Some n" "fu_group_num i = FU_GROUP_INT"
  shows "printInstruction tbl (encode_R f7 rs2 rs1 f3 rd opc) =
           n @ '' x'' @ fmt_dn rd @ '' x'' @ fmt_dn rs1 @ '' x'' @ fmt_dn rs2"
proof -
  have f: "FIELD_OPCODE (encode_R f7 rs2 rs1 f3 rd opc) = opc \<and> FIELD_RD (encode_R f7 rs2 rs1 f3 rd opc) = rd \<and>
           FIELD_RS1 (encode_R f7 rs2 rs1 f3 rd opc) = rs1 \<and> FIELD_RS2 (encode_R f7 rs2 rs1 f3 rd opc) = rs2"
    using encode_R_fields [OF assms(1-6)] by simp
  then have "encode_R f7 rs2 rs1 f3 rd opc \<noteq> NOP" using assms(7) by (intro not_NOP_opcode) simp
  with assms(8-10) f show ?thesis
    by (simp add: printInstruction_lookup_render render_def print_level3_def)
qed

theorem printInstruction_encode_R_witness:
  "printInstruction op_table (encode_R 0 7 6 0 5 0x33) = ''add x5 x6 x7''"
proof -
  have lk: "op_lookup op_table (encode_R 0 7 6 0 5 0x33) = Some (Level3, mk_op ''add'' FU_GROUP_INT OPERATION_ADD DATA_TYPE_W)"
    by (simp add: lookup_eval op_table_eval encode_R_def FIELD_OPCODE_def FIELD_FUNC3_def FIELD_FUNC7_def)
  have "printInstruction op_table (encode_R 0 7 6 0 5 0x33) =
      ''add'' @ '' x'' @ fmt_dn 5 @ '' x'' @ fmt_dn 6 @ '' x'' @ fmt_dn 7"
    by (rule printInstruction_encode_R [OF _ _ _ _ _ _ _ lk]) (simp_all add: mk_op_def)
  then show ?thesis by (simp add: disasm_eval)
qed

text \<open>
  C4. Roundtrip of a load: disassembling an I-type word whose cell is a named word load at
  level 2 writes the encoded destination, the encoded 12-bit signed offset and the base
  register, in the code's \<open>(imm)xN\<close> form.
\<close>

theorem printInstruction_encode_load:
  fixes imm :: int
  assumes "opc < 128" "rd < 32" "f3 < 8" "rs1 < 32" "-2048 \<le> imm" "imm < 2048" "opc \<noteq> 0x13"
    and "op_lookup tbl (encode_I imm rs1 f3 rd opc) = Some (Level2, i)"
    and "name i = Some n" "fu_group_num i = FU_GROUP_MEM" "data_type i = DATA_TYPE_W"
    and "operation i = OPERATION_LOAD"
  shows "printInstruction tbl (encode_I imm rs1 f3 rd opc) =
           n @ '' x'' @ fmt_dn rd @ '' ('' @ fmt_d imm @ '')x'' @ fmt_dn rs1"
proof -
  have f: "FIELD_OPCODE (encode_I imm rs1 f3 rd opc) = opc \<and> FIELD_RD (encode_I imm rs1 f3 rd opc) = rd \<and>
           FIELD_RS1 (encode_I imm rs1 f3 rd opc) = rs1"
    using encode_I_fields [OF assms(1-4)] by simp
  have imm: "FIELD_IMM_I (encode_I imm rs1 f3 rd opc) = imm"
    using encode_I_imm [OF assms(1-6)] .
  have "encode_I imm rs1 f3 rd opc \<noteq> NOP" using f assms(7) by (intro not_NOP_opcode) simp
  with assms(8-12) f imm show ?thesis
    by (simp add: printInstruction_lookup_render render_def print_level2_def print_level2_mem_def)
qed

theorem printInstruction_encode_load_witness:
  "printInstruction op_table (encode_I 16 3 2 2 3) = ''lw x2 (16)x3''"
proof -
  have lk: "op_lookup op_table (encode_I 16 3 2 2 3) = Some (Level2, mk_op ''lw'' FU_GROUP_MEM OPERATION_LOAD DATA_TYPE_W)"
    by (simp add: lookup_eval op_table_eval encode_I_def FIELD_OPCODE_def FIELD_FUNC3_def)
  have "printInstruction op_table (encode_I 16 3 2 2 3) =
      ''lw'' @ '' x'' @ fmt_dn 2 @ '' ('' @ fmt_d 16 @ '')x'' @ fmt_dn 3"
    by (rule printInstruction_encode_load [OF _ _ _ _ _ _ _ lk]) (simp_all add: mk_op_def)
  then show ?thesis by (simp add: disasm_eval)
qed

text \<open>
  C5. The unrecognised-encoding fallback: when the terminal cell has no mnemonic the code
  writes \<open>0x\<close> and exactly eight upper-case hex digits, which read back as the word.
\<close>

theorem printInstruction_unknown_hex:
  assumes "instr \<noteq> NOP" "op_lookup tbl instr = Some (d, i)" "name i = None"
  shows "printInstruction tbl instr = ''0x'' @ fmt_X 8 (unat instr) \<and>
         length (fmt_X 8 (unat instr)) = 8 \<and> parse_digits 16 (fmt_X 8 (unat instr)) = Some (unat instr)"
  using assms by (simp add: printInstruction_lookup_render render_def print_unknown_def length_fmt_X_word parse_fmt_X)

theorem printInstruction_unknown_hex_witness:
  "printInstruction op_table 1 = ''0x00000001'' \<and>
   length (fmt_X 8 (unat (1::instr))) = 8 \<and> parse_digits 16 (fmt_X 8 (unat (1::instr))) = Some 1"
proof -
  have h1: "(1::instr) \<noteq> NOP" by (simp add: NOP_def)
  have h2: "op_lookup op_table 1 = Some (Level1, no_op)"
    by (simp add: lookup_eval op_table_eval FIELD_OPCODE_def)
  have h3: "name no_op = None" by (simp add: no_op_def)
  have "fmt_X 8 (unat (1::instr)) = ''00000001''" by (simp add: disasm_eval)
  then show ?thesis using printInstruction_unknown_hex [OF h1 h2 h3] by simp
qed

text \<open>
  C6. The silent fallthrough: a named branch descriptor at level 1 that is not \<open>JAL\<close>, or
  at level 2 that is none of \<open>JALR\<close>, \<open>BEQ\<close>, \<open>BNE\<close>, makes the code write nothing at
  all (not even the mnemonic), where spec section 4.2 asks for the mnemonic alone.
\<close>

theorem printInstruction_silent_branch:
  assumes "instr \<noteq> NOP" "op_lookup tbl instr = Some (d, i)" "name i \<noteq> None"
    and "fu_group_num i = FU_GROUP_BRANCH"
    and "d = Level1 \<and> operation i \<noteq> OPERATION_JAL \<or>
         d = Level2 \<and> operation i \<notin> {OPERATION_JALR, OPERATION_BEQ, OPERATION_BNE}"
  shows "printInstruction tbl instr = []"
  using assms
  by (auto simp: printInstruction_lookup_render render_def print_level1_def print_level2_def
       print_level2_branch_def split: operation.splits)

theorem printInstruction_silent_branch_witness:
  "printInstruction jalr_at_level1 (encode_I 0 2 0 1 0x67) = []"
proof -
  have h1: "encode_I 0 2 0 1 0x67 \<noteq> NOP" by (simp add: encode_I_def NOP_def)
  have h2: "op_lookup jalr_at_level1 (encode_I 0 2 0 1 0x67) =
      Some (Level1, mk_op ''jalr'' FU_GROUP_BRANCH OPERATION_JALR DATA_TYPE_W)"
    by (simp add: jalr_at_level1_def lookup_eval op_table_def encode_I_def FIELD_OPCODE_def)
  show ?thesis
    by (rule printInstruction_silent_branch [OF h1 h2]) (simp_all add: mk_op_def)
qed

text \<open>
  C7. Totality with output (spec section 8): with the simulator's table, every one of the
  \<open>2^32\<close> words disassembles to a non-empty string.
\<close>

theorem printInstruction_nonempty_op_table: "printInstruction op_table w \<noteq> []"
proof -
  have wf: "wf_op_table op_table" using well_placed_op_table by (simp add: well_placed_def)
  show ?thesis
  proof (cases "w = NOP")
    case True
    then show ?thesis by (simp add: printInstruction_def)
  next
    case False
    obtain d i where lk: "op_lookup op_table w = Some (d, i)"
      using op_lookup_wf_Some [OF wf] by blast
    have nm: "name i \<noteq> Some []"
      using all_cells_lookup [OF wf mnemonics_nonempty_op_table lk] by simp
    have eq: "printInstruction op_table w = render d i w"
      using False lk by (rule printInstruction_lookup_render)
    show ?thesis
    proof (cases "name i")
      case None
      with eq show ?thesis by (simp add: render_def print_unknown_nonempty)
    next
      case (Some n)
      have "placed d (FIELD_OPCODE w) i" using well_placed_op_table lk Some by (rule well_placed_lookup)
      with Some nm eq show ?thesis
        by (cases d) (simp_all add: render_def render_placed_1 render_placed_2 render_placed_3)
    qed
  qed
qed

text \<open>
  C8. Operand-format determinism (spec section 8): two words that agree on opcode, func3
  and func7 are rendered from the same descriptor at the same depth, so they differ only
  in the operand values.
\<close>

theorem printInstruction_same_keys:
  assumes "wf_op_table tbl" "w \<noteq> NOP" "w' \<noteq> NOP"
    and "FIELD_OPCODE w = FIELD_OPCODE w'" "FIELD_FUNC3 w = FIELD_FUNC3 w'" "FIELD_FUNC7 w = FIELD_FUNC7 w'"
  shows "\<exists>d i. printInstruction tbl w = render d i w \<and> printInstruction tbl w' = render d i w'"
proof -
  obtain d i where lk: "op_lookup tbl w = Some (d, i)"
    using op_lookup_wf_Some [OF assms(1)] by blast
  moreover have "op_lookup tbl w' = Some (d, i)"
    using lk op_lookup_keys [OF assms(4-6), of tbl] by simp
  ultimately show ?thesis using assms(2,3) by (blast intro: printInstruction_lookup_render)
qed

theorem printInstruction_same_keys_witness:
  "\<exists>d i. printInstruction op_table (encode_R 0 7 6 0 5 0x33) = render d i (encode_R 0 7 6 0 5 0x33) \<and>
         printInstruction op_table (encode_R 0 3 2 0 1 0x33) = render d i (encode_R 0 3 2 0 1 0x33)"
proof (rule printInstruction_same_keys)
  show "wf_op_table op_table" using well_placed_op_table by (simp add: well_placed_def)
qed (simp_all add: encode_R_def NOP_def FIELD_OPCODE_def FIELD_FUNC3_def FIELD_FUNC7_def)

text \<open>
  C9. The register-register test of the level-2 integer format compares the opcode with 0,
  not with the RISC-V register-register opcode: an integer descriptor at level 2 under
  opcode \<open>0x33\<close> is written in the immediate form, while the spec's table gives it three
  register operands.
\<close>

theorem print_level2_int_reg_reg:
  assumes "FIELD_OPCODE w = REG_REG_OPCODE" "fu_group_num i = FU_GROUP_INT"
  shows "print_level2 n i w = n @ concat (map code_operand [XReg (FIELD_RD w), XReg (FIELD_RS1 w), Imm (FIELD_IMM_I w)])
         \<and> spec_operands i w = [XReg (FIELD_RD w), XReg (FIELD_RS1 w), XReg (FIELD_RS2 w)]"
  using assms by (simp add: print_level2_def print_level2_int_def spec_operands_def REG_REG_OPCODE_def)

theorem print_level2_int_reg_reg_witness:
  "print_level2 ''add'' (mk_op ''add'' FU_GROUP_INT OPERATION_ADD DATA_TYPE_W) (encode_R 0 7 6 0 5 0x33)
     = ''add x5 x6 #7'' \<and>
   spec_operands (mk_op ''add'' FU_GROUP_INT OPERATION_ADD DATA_TYPE_W) (encode_R 0 7 6 0 5 0x33)
     = [XReg 5, XReg 6, XReg 7]"
proof -
  have h: "FIELD_OPCODE (encode_R 0 7 6 0 5 0x33) = REG_REG_OPCODE"
    by (simp add: encode_R_def FIELD_OPCODE_def REG_REG_OPCODE_def)
  show ?thesis
    using print_level2_int_reg_reg [OF h, of "mk_op ''add'' FU_GROUP_INT OPERATION_ADD DATA_TYPE_W" "''add''"]
    by (simp add: mk_op_def disasm_eval encode_R_def)
qed

text \<open>
  C22. Roundtrip of a jump: disassembling a J-type word whose cell is a named \<open>JAL\<close>
  descriptor at level 1 writes the encoded destination and the encoded signed, even
  21-bit offset, which \<open>FIELD_OFFSET\<close> reassembles from its four scattered bit groups.
\<close>

theorem printInstruction_encode_jal:
  assumes "opc < 128" "rd < 32" "- (2 ^ 20) \<le> off" "off < 2 ^ 20" "even off" "opc \<noteq> 0x13"
    and "op_lookup tbl (encode_J off rd opc) = Some (Level1, i)"
    and "name i = Some n" "fu_group_num i = FU_GROUP_BRANCH" "operation i = OPERATION_JAL"
  shows "printInstruction tbl (encode_J off rd opc) = n @ '' x'' @ fmt_dn rd @ '' #'' @ fmt_d off"
proof -
  note f = encode_J_fields [OF assms(1,2), of off]
  have "encode_J off rd opc \<noteq> NOP" using f assms(6) by (intro not_NOP_opcode) simp
  with assms(7-10) f encode_J_offset [OF assms(3-5)] show ?thesis
    by (simp add: printInstruction_lookup_render render_def print_level1_def)
qed

theorem printInstruction_encode_jal_witness:
  "printInstruction op_table (encode_J 100 1 0x6F) = ''jal x1 #100''"
proof -
  have lk: "op_lookup op_table (encode_J 100 1 0x6F) =
              Some (Level1, mk_op ''jal'' FU_GROUP_BRANCH OPERATION_JAL DATA_TYPE_W)"
  proof -
    have "FIELD_OPCODE (encode_J 100 1 0x6F) = 0x6F" using encode_J_fields [of "0x6F" 1 100] by simp
    then show ?thesis by (simp add: lookup_eval op_table_eval)
  qed
  have "printInstruction op_table (encode_J 100 1 0x6F) = ''jal'' @ '' x'' @ fmt_dn 1 @ '' #'' @ fmt_d 100"
    by (rule printInstruction_encode_jal [OF _ _ _ _ _ _ lk]) (simp_all add: mk_op_def)
  then show ?thesis by (simp add: disasm_eval)
qed

end
