(* ===== verification/FU.thy ===== *)
theory FU
  imports Disasm
begin

text \<open>
  \<open>print_fu_group_int\<close> and \<open>print_fu_group_fp\<close> of \<open>src/output.c\<close> (lines 83--129):
  the occupancy display of spec section 4.3. A functional unit (\<open>fu_int_t\<close>,
  \<open>fu_fp_t\<close>) has a name, a stage list and a \<open>next\<close> pointer; a stage
  (\<open>fu_int_stage_t\<close>, \<open>fu_fp_stage_t\<close>) has the instruction it holds, its elapsed and
  total cycle counts, and a \<open>prev\<close> pointer. Here a chain that ends in \<open>NULL\<close> is a list
  in traversal order: the units in \<open>next\<close> order, the stages of a unit from
  \<open>stage_list\<close> along \<open>prev\<close> (the stage nearest completion first). Both structs of a
  kind share one record, since the routines read the same fields of both. Each
  \<open>while\<close> loop is a recursive function over the list; the stage counter \<open>j\<close> is an
  accumulator. The pointer structures themselves, where a chain may be cyclic, are the
  subject of \<open>FU_Heap\<close>.
\<close>

record fu_stage =
  instr :: instr
  current_cycle :: int
  num_cycles :: int

record fu_unit =
  fu_name :: string
  stage_list :: "fu_stage list"

subsection \<open>The code\<close>

text \<open>One occupied stage (lines 95--98, and 119--122 for the floating-point units).\<close>

definition print_stage_line :: "op_table_t \<Rightarrow> string \<Rightarrow> int \<Rightarrow> fu_stage \<Rightarrow> string" where
  "print_stage_line tbl nm j st =
     [TAB, TAB] @ ''name '' @ [SQ] @ nm @ [SQ] @ '', stage '' @ fmt_d j @ '' (from end), cycle ''
       @ fmt_d (current_cycle st) @ ''/'' @ fmt_d (num_cycles st) @ '', ''
       @ printInstruction tbl (instr st) @ [NL]"

text \<open>The inner \<open>while\<close> of \<open>print_fu_group_int\<close> (lines 93--102).\<close>

fun print_int_stages :: "op_table_t \<Rightarrow> string \<Rightarrow> int \<Rightarrow> fu_stage list \<Rightarrow> string" where
  "print_int_stages tbl nm j [] = []"
| "print_int_stages tbl nm j (st # sts) =
     (if current_cycle st \<noteq> -1 then print_stage_line tbl nm j st else [])
       @ print_int_stages tbl nm (j + 1) sts"

text \<open>\<open>print_fu_group_int\<close> (lines 83--105): the outer \<open>while\<close> over the units.\<close>

fun print_fu_group_int :: "op_table_t \<Rightarrow> fu_unit list \<Rightarrow> string" where
  "print_fu_group_int tbl [] = []"
| "print_fu_group_int tbl (u # us) =
     print_int_stages tbl (fu_name u) 0 (stage_list u) @ print_fu_group_int tbl us"

text \<open>The inner \<open>while\<close> of \<open>print_fu_group_fp\<close> (lines 117--126).\<close>

fun print_fp_stages :: "op_table_t \<Rightarrow> string \<Rightarrow> int \<Rightarrow> fu_stage list \<Rightarrow> string" where
  "print_fp_stages tbl nm j [] = []"
| "print_fp_stages tbl nm j (st # sts) =
     (if current_cycle st \<noteq> -1 then print_stage_line tbl nm j st else [])
       @ print_fp_stages tbl nm (j + 1) sts"

text \<open>\<open>print_fu_group_fp\<close> (lines 107--129).\<close>

fun print_fu_group_fp :: "op_table_t \<Rightarrow> fu_unit list \<Rightarrow> string" where
  "print_fu_group_fp tbl [] = []"
| "print_fu_group_fp tbl (u # us) =
     print_fp_stages tbl (fu_name u) 0 (stage_list u) @ print_fu_group_fp tbl us"

subsection \<open>The contract: spec section 4.3\<close>

text \<open>
  An occupancy record: the unit, the stage's index from completion, its elapsed and total
  cycles, and its occupant. \<open>occupancy\<close> lists one record per non-idle stage, units in
  chain order and stages from completion backwards.
\<close>

record occ_record =
  occ_unit :: string
  occ_stage :: nat
  occ_cycle :: int
  occ_total :: int
  occ_instr :: instr

definition occ_of :: "string \<Rightarrow> nat \<times> fu_stage \<Rightarrow> occ_record" where
  "occ_of nm js = \<lparr>occ_unit = nm, occ_stage = fst js, occ_cycle = current_cycle (snd js),
                   occ_total = num_cycles (snd js), occ_instr = instr (snd js)\<rparr>"

definition busy :: "nat \<times> fu_stage \<Rightarrow> bool" where
  "busy js \<longleftrightarrow> current_cycle (snd js) \<noteq> -1"

definition unit_occupancy :: "nat \<Rightarrow> fu_unit \<Rightarrow> occ_record list" where
  "unit_occupancy k u = map (occ_of (fu_name u)) (filter busy (enumerate k (stage_list u)))"

definition occupancy :: "fu_unit list \<Rightarrow> occ_record list" where
  "occupancy us = concat (map (unit_occupancy 0) us)"

text \<open>The display line of one record, in the code's format.\<close>

definition occ_line :: "op_table_t \<Rightarrow> occ_record \<Rightarrow> string" where
  "occ_line tbl r =
     [TAB, TAB] @ ''name '' @ [SQ] @ occ_unit r @ [SQ] @ '', stage '' @ fmt_dn (occ_stage r)
       @ '' (from end), cycle '' @ fmt_d (occ_cycle r) @ ''/'' @ fmt_d (occ_total r) @ '', ''
       @ printInstruction tbl (occ_instr r) @ [NL]"

text \<open>The stage invariant of spec section 3: idle, or a cycle count within the latency.\<close>

definition stage_ok :: "fu_stage \<Rightarrow> bool" where
  "stage_ok st \<longleftrightarrow> current_cycle st = -1 \<or> 0 \<le> current_cycle st \<and> current_cycle st < num_cycles st"

text \<open>The three-stage unit of the occupancy example in spec section 8.\<close>

definition ex_int_unit :: fu_unit where
  "ex_int_unit = \<lparr>fu_name = ''int0'', stage_list =
     [\<lparr>instr = NOP, current_cycle = -1, num_cycles = 4\<rparr>,
      \<lparr>instr = encode_R 0 7 6 0 5 0x33, current_cycle = 2, num_cycles = 4\<rparr>,
      \<lparr>instr = encode_I 16 3 2 2 3, current_cycle = 0, num_cycles = 4\<rparr>]\<rparr>"

subsection \<open>The loops print the occupancy records\<close>

lemma print_stage_line_occ:
  "print_stage_line tbl nm (int k) st = occ_line tbl (occ_of nm (k, st))"
  by (simp add: print_stage_line_def occ_line_def occ_of_def)

lemma print_int_stages_occ:
  "print_int_stages tbl nm (int k) sts =
     concat (map (occ_line tbl) (map (occ_of nm) (filter busy (enumerate k sts))))"
proof (induction sts arbitrary: k)
  case Nil
  then show ?case by simp
next
  case (Cons st sts)
  have "print_int_stages tbl nm (int k + 1) sts =
          concat (map (occ_line tbl) (map (occ_of nm) (filter busy (enumerate (Suc k) sts))))"
    using Cons.IH [of "Suc k"] by (simp add: add.commute)
  moreover have "busy (k, st) \<longleftrightarrow> current_cycle st \<noteq> -1" by (simp add: busy_def)
  ultimately show ?case by (simp add: print_stage_line_occ)
qed

lemma print_fp_stages_int_stages: "print_fp_stages tbl nm j sts = print_int_stages tbl nm j sts"
  by (induction sts arbitrary: j) simp_all

lemma print_fu_group_fp_int: "print_fu_group_fp tbl us = print_fu_group_int tbl us"
  by (induction us) (simp_all add: print_fp_stages_int_stages)

lemma print_fu_group_int_occ:
  "print_fu_group_int tbl us = concat (map (occ_line tbl) (occupancy us))"
proof (induction us)
  case Nil
  then show ?case by (simp add: occupancy_def)
next
  case (Cons u us)
  have "print_int_stages tbl (fu_name u) (int 0) (stage_list u) =
          concat (map (occ_line tbl) (unit_occupancy 0 u))"
    by (simp only: print_int_stages_occ unit_occupancy_def)
  with Cons.IH show ?case by (simp add: occupancy_def)
qed

subsection \<open>The occupancy records\<close>

lemma unit_occupancy_stages:
  "map occ_stage (unit_occupancy k u) = map fst (filter busy (enumerate k (stage_list u)))"
  by (simp add: unit_occupancy_def occ_of_def comp_def)

lemma sorted_enumerate_fst: "sorted_wrt (\<lambda>a b. fst a < fst b) (enumerate k xs)"
proof -
  have "sorted_wrt (<) (map fst (enumerate k xs))" by simp
  then show ?thesis unfolding sorted_wrt_map .
qed

lemma set_unit_occupancy:
  "set (unit_occupancy 0 u) =
     {occ_of (fu_name u) (j, stage_list u ! j) | j. j < length (stage_list u) \<and>
        current_cycle (stage_list u ! j) \<noteq> -1}"
  by (auto simp: unit_occupancy_def in_set_enumerate_eq busy_def)

lemma occupancy_cycles:
  assumes "\<forall>u \<in> set us. \<forall>st \<in> set (stage_list u). stage_ok st"
  shows "\<forall>r \<in> set (occupancy us). 0 \<le> occ_cycle r \<and> occ_cycle r < occ_total r"
  using assms
  by (fastforce simp: occupancy_def unit_occupancy_def occ_of_def busy_def stage_ok_def
                dest: in_set_enumerate_eq [THEN iffD1])

lemma length_filter_busy:
  "length (filter busy (enumerate k xs)) = length (filter (\<lambda>st. current_cycle st \<noteq> -1) xs)"
  by (induction xs arbitrary: k) (simp_all add: busy_def)

lemma length_occupancy:
  "length (occupancy us) = sum_list (map (\<lambda>u. length (filter (\<lambda>st. current_cycle st \<noteq> -1) (stage_list u))) us)"
  by (induction us) (simp_all add: occupancy_def unit_occupancy_def length_filter_busy)

lemma NL_count_occ_line:
  assumes "NL \<notin> set (occ_unit r)" "NL \<notin> set (printInstruction tbl (occ_instr r))"
  shows "length (filter (\<lambda>c. c = NL) (occ_line tbl r)) = 1"
proof -
  have "filter (\<lambda>c. c = NL) xs = []" if "NL \<notin> set xs" for xs
    using that by (auto simp: filter_empty_conv)
  with assms show ?thesis
    by (simp add: occ_line_def NL_notin_fmt_d)
qed

lemma NL_count_occupancy:
  assumes "wf_op_table tbl" "all_cells (\<lambda>_ _ i. case name i of None \<Rightarrow> True | Some n \<Rightarrow> NL \<notin> set n) tbl"
    and "\<forall>u \<in> set us. NL \<notin> set (fu_name u)"
  shows "length (filter (\<lambda>c. c = NL) (concat (map (occ_line tbl) (occupancy us)))) = length (occupancy us)"
proof -
  have "\<forall>r \<in> set (occupancy us). length (filter (\<lambda>c. c = NL) (occ_line tbl r)) = 1"
  proof
    fix r assume r: "r \<in> set (occupancy us)"
    then have "NL \<notin> set (occ_unit r)"
      using assms(3) by (auto simp: occupancy_def unit_occupancy_def occ_of_def)
    moreover have "NL \<notin> set (printInstruction tbl (occ_instr r))"
      using assms(1,2) by (rule NL_notin_printInstruction)
    ultimately show "length (filter (\<lambda>c. c = NL) (occ_line tbl r)) = 1"
      by (rule NL_count_occ_line)
  qed
  then show ?thesis
    using length_filter_concat_map [of "occupancy us" "\<lambda>c. c = NL" "occ_line tbl" 1] by simp
qed

subsection \<open>Properties of the occupancy display\<close>

text \<open>
  C10. Both display loops implement the contract of spec section 4.3: the integer and the
  floating-point routine each write, for every unit in chain order and every stage from
  completion backwards, one line per non-idle stage, with its index from the end, its
  cycle counts and its disassembled occupant, and nothing for an idle stage.
\<close>

theorem print_fu_groups_occupancy:
  "print_fu_group_int tbl us = concat (map (occ_line tbl) (occupancy us)) \<and>
   print_fu_group_fp tbl us = concat (map (occ_line tbl) (occupancy us))"
  by (simp add: print_fu_group_fp_int print_fu_group_int_occ)

text \<open>
  C11. Ordering and completeness for one unit (spec section 4.3 guarantee): the lines
  written are those of exactly the non-idle stages, each paired with its own index and
  counters, in strictly increasing order of the index from the end.
\<close>

theorem print_fu_group_int_unit:
  "\<exists>rs. print_fu_group_int tbl [u] = concat (map (occ_line tbl) rs) \<and>
        sorted_wrt (<) (map occ_stage rs) \<and>
        set rs = {occ_of (fu_name u) (j, stage_list u ! j) | j. j < length (stage_list u) \<and>
                    current_cycle (stage_list u ! j) \<noteq> -1}"
proof (intro exI conjI)
  show "print_fu_group_int tbl [u] = concat (map (occ_line tbl) (unit_occupancy 0 u))"
    using print_fu_group_int_occ [of tbl "[u]"] by (simp add: occupancy_def)
  have "sorted_wrt (\<lambda>a b. fst a < fst b) (enumerate 0 (stage_list u))"
    by (rule sorted_enumerate_fst)
  then have "sorted_wrt (\<lambda>a b. fst a < fst b) (filter busy (enumerate 0 (stage_list u)))"
    by (rule sorted_wrt_filter)
  then show "sorted_wrt (<) (map occ_stage (unit_occupancy 0 u))"
    by (simp add: unit_occupancy_stages sorted_wrt_map)
  show "set (unit_occupancy 0 u) = {occ_of (fu_name u) (j, stage_list u ! j) | j. j < length (stage_list u) \<and>
                    current_cycle (stage_list u ! j) \<noteq> -1}"
    by (simp add: set_unit_occupancy)
qed

text \<open>
  C12. Under the stage invariant of spec section 3 (idle, or elapsed cycles within the
  latency) every displayed line shows an elapsed count in \<open>[0, total)\<close>.
\<close>

theorem print_fu_group_int_cycles:
  assumes "\<forall>u \<in> set us. \<forall>st \<in> set (stage_list u). stage_ok st"
  shows "\<exists>rs. print_fu_group_int tbl us = concat (map (occ_line tbl) rs) \<and>
              (\<forall>r \<in> set rs. 0 \<le> occ_cycle r \<and> occ_cycle r < occ_total r)"
  using print_fu_group_int_occ occupancy_cycles [OF assms] by blast

theorem print_fu_group_int_cycles_witness:
  "\<exists>rs. print_fu_group_int op_table [ex_int_unit] = concat (map (occ_line op_table) rs) \<and>
        (\<forall>r \<in> set rs. 0 \<le> occ_cycle r \<and> occ_cycle r < occ_total r)"
  by (rule print_fu_group_int_cycles) (simp add: ex_int_unit_def stage_ok_def)

text \<open>
  C13. One line per occupied stage: when no mnemonic of the table and no unit name contains
  a newline, the display contains exactly as many newlines as there are non-idle stages.
\<close>

theorem print_fu_group_int_lines:
  assumes "wf_op_table tbl" "all_cells (\<lambda>_ _ i. case name i of None \<Rightarrow> True | Some n \<Rightarrow> NL \<notin> set n) tbl"
    and "\<forall>u \<in> set us. NL \<notin> set (fu_name u)"
  shows "length (filter (\<lambda>c. c = NL) (print_fu_group_int tbl us)) =
           sum_list (map (\<lambda>u. length (filter (\<lambda>st. current_cycle st \<noteq> -1) (stage_list u))) us)"
  using NL_count_occupancy [OF assms] by (simp add: print_fu_group_int_occ length_occupancy)

theorem print_fu_group_int_lines_witness:
  "length (filter (\<lambda>c. c = NL) (print_fu_group_int op_table [ex_int_unit])) = 2"
proof -
  have wf: "wf_op_table op_table" using well_placed_op_table by (simp add: well_placed_def)
  have nl: "all_cells (\<lambda>_ _ i. case name i of None \<Rightarrow> True | Some n \<Rightarrow> NL \<notin> set n) op_table" by code_simp
  have un: "\<forall>u \<in> set [ex_int_unit]. NL \<notin> set (fu_name u)" by (simp add: ex_int_unit_def)
  show ?thesis using print_fu_group_int_lines [OF wf nl un] by (simp add: ex_int_unit_def)
qed

end
