(* ===== verification/State.thy ===== *)
theory State
  imports FU
begin

text \<open>
  \<open>print_state\<close> of \<open>src/output.c\<close> (lines 20--79): the dump of the simulator state.
  The state (\<open>state_t\<close> of \<open>pipeline.h\<close>, outside \<open>src/\<close>) is a record of the fields
  the routine reads: the byte memory, the integer registers (their \<open>.wu\<close> view, a 32-bit
  unsigned word), the floating-point registers, the \<open>pc\<close>, the instruction in the
  IF/ID latch, the four functional-unit chains and the two write-back latches. The float
  registers have an abstract type \<open>'f\<close> and the \<open>%.6g\<close> conversion is a parameter \<open>g\<close>:
  the model keeps the \<open>-10\<close> width (\<open>pad_right 10\<close>) and nothing of float formatting.
  Each \<open>for\<close> loop is a function of its counter with a termination proof by the measure
  bound minus counter. A read past the end of a C array is not modelled: the theorems
  assume the arrays are as long as the loops read.
\<close>

unbundle bit_operations_syntax

definition NUMREGS :: nat where
  "NUMREGS = 32"

record 'f state =
  mem :: "8 word list"
  reg_int :: "32 word list"
  reg_fp :: "'f list"
  pc :: "32 word"
  if_id_instr :: instr
  fu_int_list :: "fu_unit list"
  fu_add_list :: "fu_unit list"
  fu_mult_list :: "fu_unit list"
  fu_div_list :: "fu_unit list"
  int_wb_instr :: instr
  fp_wb_instr :: instr

text \<open>The group names \<open>fu_group_int_name\<close> \<dots> \<open>fu_group_div_name\<close> (globals of \<open>fu.c\<close>).\<close>

record fu_group_names =
  fu_group_int_name :: string
  fu_group_add_name :: string
  fu_group_mult_name :: string
  fu_group_div_name :: string

subsection \<open>The code\<close>

text \<open>The body of the memory loop (lines 26--30): a new line with the address every 16 bytes.\<close>

definition print_mem_byte :: "8 word list \<Rightarrow> nat \<Rightarrow> string" where
  "print_mem_byte m i =
     (if i AND 0xF = 0
      then [NL, TAB] @ ''0x'' @ fmt_X 8 i @ [TAB] @ fmt_X 2 (unat (m ! i))
      else '' '' @ fmt_X 2 (unat (m ! i)))"

text \<open>The memory loop (lines 25--31).\<close>

function print_memory_from :: "8 word list \<Rightarrow> int \<Rightarrow> nat \<Rightarrow> string" where
  "print_memory_from m num_memory i =
     (if int i < num_memory then print_mem_byte m i @ print_memory_from m num_memory (Suc i) else [])"
  by pat_completeness auto
termination
  by (relation "measure (\<lambda>(m, n, i). nat n - i)") auto

definition print_memory :: "8 word list \<Rightarrow> int \<Rightarrow> string" where
  "print_memory m num_memory = print_memory_from m num_memory 0"

text \<open>The integer register loop (lines 36--41): four registers per line.\<close>

definition print_int_reg :: "32 word list \<Rightarrow> nat \<Rightarrow> string" where
  "print_int_reg r j = ''x'' @ fmt_dn j @ ''=0x'' @ fmt_X 8 (unat (r ! j))"

function print_int_regs_from :: "32 word list \<Rightarrow> nat \<Rightarrow> string" where
  "print_int_regs_from r i =
     (if i < NUMREGS then
        [TAB] @ print_int_reg r i @ [TAB] @ print_int_reg r (i + 1) @ [TAB] @ print_int_reg r (i + 2)
          @ [TAB] @ print_int_reg r (i + 3) @ [NL] @ print_int_regs_from r (i + 4)
      else [])"
  by pat_completeness auto
termination
  by (relation "measure (\<lambda>(r, i). NUMREGS - i)") auto

text \<open>The floating-point register loop (lines 44--49), \<open>%-10.6g\<close> per register.\<close>

definition print_fp_reg :: "('f \<Rightarrow> string) \<Rightarrow> 'f list \<Rightarrow> nat \<Rightarrow> string" where
  "print_fp_reg g r j = ''f'' @ fmt_dn j @ ''='' @ pad_right 10 (g (r ! j))"

function print_fp_regs_from :: "('f \<Rightarrow> string) \<Rightarrow> 'f list \<Rightarrow> nat \<Rightarrow> string" where
  "print_fp_regs_from g r i =
     (if i < NUMREGS then
        [TAB] @ print_fp_reg g r i @ [TAB] @ print_fp_reg g r (i + 1) @ [TAB] @ print_fp_reg g r (i + 2)
          @ [TAB] @ print_fp_reg g r (i + 3) @ [NL] @ print_fp_regs_from g r (i + 4)
      else [])"
  by pat_completeness auto
termination
  by (relation "measure (\<lambda>(g, r, i). NUMREGS - i)") auto

text \<open>A write-back latch (lines 69--76): printed only when it holds a non-zero word.\<close>

definition print_wb :: "op_table_t \<Rightarrow> instr \<Rightarrow> string" where
  "print_wb tbl i = (if i \<noteq> 0 then [TAB, TAB] @ printInstruction tbl i else [])"

text \<open>The whole dump, \<open>print_state\<close> (lines 20--79), section by section (the name \<open>print_state\<close> is an Isar command).\<close>

definition print_state_dump ::
    "op_table_t \<Rightarrow> ('f \<Rightarrow> string) \<Rightarrow> fu_group_names \<Rightarrow> 'f state \<Rightarrow> int \<Rightarrow> string" where
  "print_state_dump tbl g nms st num_memory =
     ''Memory'' @ [NL] @ [TAB] @ ''Address'' @ [TAB, TAB] @ ''Data''
     @ print_memory (mem st) num_memory @ [NL]
     @ ''Registers (integer):'' @ [NL] @ print_int_regs_from (reg_int st) 0
     @ ''Registers (floating point):'' @ [NL] @ print_fp_regs_from g (reg_fp st) 0
     @ ''pc:'' @ [NL] @ [TAB] @ ''pc'' @ [TAB] @ ''0x'' @ fmt_X 8 (unat (pc st)) @ [NL]
     @ ''ifid:'' @ [NL] @ [TAB] @ ''instr'' @ [TAB] @ printInstruction tbl (if_id_instr st) @ [NL]
     @ fu_group_int_name nms @ '' fu:'' @ [NL] @ print_fu_group_int tbl (fu_int_list st)
     @ fu_group_add_name nms @ '' fu:'' @ [NL] @ print_fu_group_fp tbl (fu_add_list st)
     @ fu_group_mult_name nms @ '' fu:'' @ [NL] @ print_fu_group_fp tbl (fu_mult_list st)
     @ fu_group_div_name nms @ '' fu:'' @ [NL] @ print_fu_group_fp tbl (fu_div_list st)
     @ ''wb:'' @ [NL] @ print_wb tbl (int_wb_instr st) @ print_wb tbl (fp_wb_instr st) @ [NL]"

text \<open>A small state for the examples: three bytes of memory, the unit of spec section 8.\<close>

definition ex_state :: "unit state" where
  "ex_state = \<lparr>mem = [1, 2, 3], reg_int = replicate 32 0, reg_fp = replicate 32 (), pc = 0,
     if_id_instr = NOP, fu_int_list = [ex_int_unit], fu_add_list = [], fu_mult_list = [],
     fu_div_list = [], int_wb_instr = 0, fp_wb_instr = 0\<rparr>"

definition ex_names :: fu_group_names where
  "ex_names = \<lparr>fu_group_int_name = ''int'', fu_group_add_name = ''add'',
     fu_group_mult_name = ''mult'', fu_group_div_name = ''div''\<rparr>"

declare print_memory_from.simps [simp del] print_int_regs_from.simps [simp del]
  print_fp_regs_from.simps [simp del]

subsection \<open>Readers of the dump\<close>

text \<open>
  What a reader recovers from the memory section: the fields that are not addresses
  (\<open>0x\<close>-prefixed), read as hexadecimal bytes.
\<close>

definition parse_mem_dump :: "string \<Rightarrow> nat list option" where
  "parse_mem_dump s = those (map (parse_digits 16) (filter (\<lambda>t. take 2 t \<noteq> ''0x'') (split_fields s)))"

text \<open>One field \<open>x<j>=0x<hex>\<close> of the integer register section, read as index and value.\<close>

definition parse_int_reg :: "string \<Rightarrow> (nat \<times> nat) option" where
  "parse_int_reg t =
     (if take 1 t = ''x'' then
        (let a = takeWhile (\<lambda>c. c \<noteq> CHR ''='') (drop 1 t);
             b = dropWhile (\<lambda>c. c \<noteq> CHR ''='') (drop 1 t)
         in if take 3 b = ''=0x'' then
              (case (parse_digits 10 a, parse_digits 16 (drop 3 b)) of
                 (Some j, Some v) \<Rightarrow> Some (j, v)
               | _ \<Rightarrow> None)
            else None)
      else None)"

text \<open>
  A reference for the memory section, row by row: row \<open>k\<close> is the address \<open>16 k\<close> and the
  bytes \<open>16 k\<close> to \<open>min N (16 k + 16) - 1\<close>, the first after a tab, the others after a blank.
\<close>

definition mem_row :: "8 word list \<Rightarrow> nat \<Rightarrow> nat \<Rightarrow> string" where
  "mem_row m N k =
     [NL, TAB] @ ''0x'' @ fmt_X 8 (16 * k) @ [TAB] @ fmt_X 2 (unat (m ! (16 * k)))
     @ concat (map (\<lambda>j. '' '' @ fmt_X 2 (unat (m ! j))) [16 * k + 1..<min N (16 * k + 16)])"

definition print_memory_rows :: "8 word list \<Rightarrow> int \<Rightarrow> string" where
  "print_memory_rows m num_memory =
     concat (map (mem_row m (nat num_memory)) [0..<(nat num_memory + 15) div 16])"

subsection \<open>Loops as maps\<close>

lemma print_memory_from_concat:
  "print_memory_from m n i = concat (map (print_mem_byte m) [i..<nat n])"
proof (induction m n i rule: print_memory_from.induct)
  case (1 m n i)
  show ?case
  proof (cases "int i < n")
    case True
    then have "[i..<nat n] = i # [Suc i..<nat n]" by (simp add: upt_conv_Cons)
    with True 1 show ?thesis by (simp add: print_memory_from.simps [of m n i])
  next
    case False
    then show ?thesis by (simp add: print_memory_from.simps [of m n i])
  qed
qed

lemma and_15_nat: "(j :: nat) AND 0xF = j mod 16"
proof -
  have "j AND mask 4 = take_bit 4 j" by (simp add: take_bit_eq_mask)
  moreover have "mask 4 = (0xF :: nat)" by (simp add: mask_eq_exp_minus_1)
  ultimately show ?thesis by (simp add: take_bit_eq_mod)
qed

subsection \<open>Fields of the sections\<close>

text \<open>Fields each preceded by the same separator.\<close>

lemma fields_seps:
  assumes "is_space c" "\<forall>w \<in> set ws. w \<noteq> [] \<and> space_free w" "starts_space rest"
  shows "split_fields (concat (map (\<lambda>w. c # w) ws) @ rest) = ws @ split_fields rest"
  using assms(2)
proof (induction ws)
  case Nil
  then show ?case by simp
next
  case (Cons w ws)
  have "starts_space (concat (map (\<lambda>w. c # w) ws) @ rest)"
    using assms(1,3) by (cases ws) simp_all
  then have "split_fields (c # w @ (concat (map (\<lambda>w. c # w) ws) @ rest)) =
               w # split_fields (concat (map (\<lambda>w. c # w) ws) @ rest)"
    using Cons.prems assms(1) by (intro fields_word) simp_all
  with Cons show ?case by simp
qed

lemma is_space_chars [simp]: "is_space CHR '' ''" "is_space TAB" "is_space NL"
  by (simp_all add: is_space_def)

lemma x_notin_fmt_X: "CHR ''x'' \<notin> set (fmt_X prec n)"
  using set_fmt_X [of prec n] by auto

lemma take2_fmt_X: "take 2 (fmt_X prec n) \<noteq> ''0x''"
proof
  assume "take 2 (fmt_X prec n) = ''0x''"
  then have "CHR ''x'' \<in> set (take 2 (fmt_X prec n))" by simp
  then show False using x_notin_fmt_X [of prec n] by (auto dest: in_set_takeD)
qed

lemma fields_mem_byte:
  assumes "starts_space rest"
  shows "split_fields (print_mem_byte m j @ rest) =
           (if j AND 0xF = 0 then [''0x'' @ fmt_X 8 j, fmt_X 2 (unat (m ! j))]
            else [fmt_X 2 (unat (m ! j))]) @ split_fields rest"
proof (cases "j AND 0xF = 0")
  case True
  have "split_fields (concat (map (\<lambda>w. TAB # w) [''0x'' @ fmt_X 8 j, fmt_X 2 (unat (m ! j))]) @ rest) =
          [''0x'' @ fmt_X 8 j, fmt_X 2 (unat (m ! j))] @ split_fields rest"
    by (rule fields_seps) (simp_all add: assms is_space_def)
  with True show ?thesis by (simp add: print_mem_byte_def)
next
  case False
  have "split_fields (concat (map (\<lambda>w. CHR '' '' # w) [fmt_X 2 (unat (m ! j))]) @ rest) =
          [fmt_X 2 (unat (m ! j))] @ split_fields rest"
    by (rule fields_seps) (simp_all add: assms is_space_def)
  with False show ?thesis by (simp add: print_mem_byte_def)
qed

lemma starts_space_mem_bytes: "starts_space (concat (map (print_mem_byte m) js))"
  by (cases js) (auto simp: print_mem_byte_def is_space_def)

lemma fields_mem_bytes:
  "split_fields (concat (map (print_mem_byte m) js)) =
     concat (map (\<lambda>j. if j AND 0xF = 0 then [''0x'' @ fmt_X 8 j, fmt_X 2 (unat (m ! j))]
                      else [fmt_X 2 (unat (m ! j))]) js)"
  by (induction js) (simp_all add: fields_mem_byte starts_space_mem_bytes)

lemma mem_byte_values:
  "map (parse_digits 16) (filter (\<lambda>t. take 2 t \<noteq> ''0x'')
      (concat (map (\<lambda>j. if j AND 0xF = 0 then [''0x'' @ fmt_X 8 j, fmt_X 2 (unat (m ! j))]
                        else [fmt_X 2 (unat (m ! j))]) js))) =
   map (\<lambda>j. Some (unat (m ! j))) js"
  by (induction js) (simp_all add: take2_fmt_X parse_fmt_X)

lemma mem_byte_addresses:
  "filter (\<lambda>t. take 2 t = ''0x'')
      (concat (map (\<lambda>j. if j AND 0xF = 0 then [''0x'' @ fmt_X 8 j, fmt_X 2 (unat (m ! j))]
                        else [fmt_X 2 (unat (m ! j))]) js)) =
   map (\<lambda>j. ''0x'' @ fmt_X 8 j) (filter (\<lambda>j. j mod 16 = 0) js)"
  by (induction js) (simp_all add: take2_fmt_X and_15_nat)

lemma div16_Suc:
  "(Suc N + 15) div 16 = (N + 15) div 16 + (if N mod 16 = 0 then 1 else 0)"
proof -
  define q r where "q = N div 16" and "r = N mod 16"
  have N: "N = 16 * q + r" and r: "r < 16" by (simp_all add: q_def r_def)
  show ?thesis
  proof (cases "r = 0")
    case True
    have "(N + 15) div 16 = q" by (rule div_nat_eqI) (simp_all add: N True)
    moreover have "(Suc N + 15) div 16 = Suc q" by (rule div_nat_eqI) (simp_all add: N True)
    ultimately show ?thesis using True by (simp add: r_def)
  next
    case False
    have "(N + 15) div 16 = Suc q" by (rule div_nat_eqI) (use r False in \<open>simp_all add: N\<close>)
    moreover have "(Suc N + 15) div 16 = Suc q" by (rule div_nat_eqI) (use r in \<open>simp_all add: N\<close>)
    ultimately show ?thesis using False by (simp add: r_def)
  qed
qed

lemma div16_exact: "N mod 16 = 0 \<Longrightarrow> 16 * ((N + 15) div 16) = (N :: nat)"
proof -
  assume "N mod 16 = 0"
  then obtain q where N: "N = 16 * q" by blast
  have "(N + 15) div 16 = q" by (rule div_nat_eqI) (simp_all add: N)
  then show ?thesis by (simp add: N)
qed

lemma filter_mod16_upt:
  "filter (\<lambda>j. j mod 16 = 0) [0..<N] = map (\<lambda>k. 16 * k) [0..<(N + 15) div 16]"
proof (induction N)
  case 0
  then show ?case by simp
next
  case (Suc N)
  show ?case
  proof (cases "N mod 16 = 0")
    case True
    then show ?thesis using Suc div16_Suc [of N] div16_exact [OF True] by simp
  next
    case False
    then show ?thesis using Suc div16_Suc [of N] by simp
  qed
qed

lemma print_int_reg_field: "print_int_reg r j \<noteq> [] \<and> space_free (print_int_reg r j)"
  by (simp add: print_int_reg_def is_space_def)

lemma upt_4_step:
  "i + 4 \<le> n \<Longrightarrow> [i..<n] = [i, i + 1, i + 2, i + 3] @ [i + 4..<n]"
  by (simp add: upt_conv_Cons eval_nat_numeral)

lemma dvd4_step: "4 dvd i \<Longrightarrow> i < NUMREGS \<Longrightarrow> 4 dvd (i + 4) \<and> i + 4 \<le> NUMREGS"
  by (auto simp: NUMREGS_def elim!: dvdE)

lemma fields_int_regs:
  "4 dvd i \<Longrightarrow> i \<le> NUMREGS \<Longrightarrow>
     split_fields (print_int_regs_from r i) = map (print_int_reg r) [i..<NUMREGS]"
proof (induction r i rule: print_int_regs_from.induct)
  case (1 r i)
  show ?case
  proof (cases "i < NUMREGS")
    case True
    note step = dvd4_step [OF 1(2) True]
    have "print_int_regs_from r i =
            concat (map (\<lambda>w. TAB # w) (map (print_int_reg r) [i, i + 1, i + 2, i + 3]))
              @ (NL # print_int_regs_from r (i + 4))"
      using True by (simp add: print_int_regs_from.simps [of r i])
    also have "split_fields \<dots> = map (print_int_reg r) [i, i + 1, i + 2, i + 3]
                                   @ split_fields (NL # print_int_regs_from r (i + 4))"
      by (rule fields_seps) (simp_all add: print_int_reg_field)
    finally show ?thesis
      using 1(1) [OF True step[THEN conjunct1] step[THEN conjunct2]] upt_4_step [of i NUMREGS] step by simp
  next
    case False
    then show ?thesis by (simp add: print_int_regs_from.simps [of r i])
  qed
qed

lemma eq_notin_fmt_u: "CHR ''='' \<notin> set (fmt_u j)"
  using set_fmt_u [of j] by auto

lemma parse_int_reg_print: "parse_int_reg (print_int_reg r j) = Some (j, unat (r ! j))"
proof -
  have u: "fmt_d (int j) = fmt_u j" by (simp add: fmt_d_def)
  have t: "takeWhile (\<lambda>c. c \<noteq> CHR ''='') (fmt_u j @ ''=0x'' @ fmt_X 8 (unat (r ! j))) = fmt_u j"
    using eq_notin_fmt_u [of j] by (subst takeWhile_append2) auto
  have d: "dropWhile (\<lambda>c. c \<noteq> CHR ''='') (fmt_u j @ ''=0x'' @ fmt_X 8 (unat (r ! j))) =
             ''=0x'' @ fmt_X 8 (unat (r ! j))"
    using eq_notin_fmt_u [of j] by (subst dropWhile_append2) auto
  show ?thesis
    using t d by (simp add: parse_int_reg_def print_int_reg_def u parse_fmt_u parse_fmt_X)
qed

subsection \<open>Line counts and lengths\<close>

lemma lines_of_mem_byte: "lines_of (print_mem_byte m j) = (if j mod 16 = 0 then 1 else 0)"
  by (simp add: print_mem_byte_def and_15_nat lines_of_free NL_notin_fmt_X)

lemma lines_of_memory: "lines_of (print_memory m n) = (nat n + 15) div 16"
proof -
  have "lines_of (concat (map (print_mem_byte m) js)) = length (filter (\<lambda>j. j mod 16 = 0) js)" for js
    by (induction js) (simp_all add: lines_of_mem_byte)
  then show ?thesis by (simp add: print_memory_def print_memory_from_concat filter_mod16_upt)
qed

lemma length_mem_byte:
  "j < 16 ^ 8 \<Longrightarrow> length (print_mem_byte m j) = (if j mod 16 = 0 then 15 else 3)"
  by (simp add: print_mem_byte_def and_15_nat length_fmt_X_byte length_fmt_X)

lemma length_mem_bytes:
  "\<forall>j \<in> set js. j < 16 ^ 8 \<Longrightarrow>
     length (concat (map (print_mem_byte m) js)) = 3 * length js + 12 * length (filter (\<lambda>j. j mod 16 = 0) js)"
  by (induction js) (simp_all add: length_mem_byte)

lemma NL_notin_print_int_reg: "NL \<notin> set (print_int_reg r j)"
  by (simp add: print_int_reg_def NL_notin_fmt_d NL_notin_fmt_X)

lemma lines_of_int_regs: "lines_of (print_int_regs_from r i) = (NUMREGS + 3 - i) div 4"
proof (induction r i rule: print_int_regs_from.induct)
  case (1 r i)
  show ?case
  proof (cases "i < NUMREGS")
    case True
    then have "lines_of (print_int_regs_from r i) = Suc (lines_of (print_int_regs_from r (i + 4)))"
      by (simp add: print_int_regs_from.simps [of r i] lines_of_free NL_notin_print_int_reg)
    with 1 True show ?thesis by (simp add: NUMREGS_def)
  next
    case False
    then show ?thesis by (simp add: print_int_regs_from.simps [of r i] NUMREGS_def)
  qed
qed

lemma NL_notin_print_fp_reg: "NL \<notin> set (g (r ! j)) \<Longrightarrow> NL \<notin> set (print_fp_reg g r j)"
  by (simp add: print_fp_reg_def pad_right_def NL_notin_fmt_d)

lemma lines_of_fp_regs:
  "\<forall>x. NL \<notin> set (g x) \<Longrightarrow> lines_of (print_fp_regs_from g r i) = (NUMREGS + 3 - i) div 4"
proof (induction g r i rule: print_fp_regs_from.induct)
  case (1 g r i)
  show ?case
  proof (cases "i < NUMREGS")
    case True
    then have "lines_of (print_fp_regs_from g r i) = Suc (lines_of (print_fp_regs_from g r (i + 4)))"
      using 1(2) by (simp add: print_fp_regs_from.simps [of g r i] lines_of_free NL_notin_print_fp_reg)
    with 1 True show ?thesis by (simp add: NUMREGS_def)
  next
    case False
    then show ?thesis by (simp add: print_fp_regs_from.simps [of g r i] NUMREGS_def)
  qed
qed

lemma lines_of_print_wb:
  "wf_op_table tbl \<Longrightarrow> all_cells (\<lambda>_ _ i. case name i of None \<Rightarrow> True | Some n \<Rightarrow> NL \<notin> set n) tbl \<Longrightarrow>
   lines_of (print_wb tbl w) = 0"
  by (simp add: print_wb_def lines_of_free NL_notin_printInstruction)

lemma lines_of_fu_group:
  "wf_op_table tbl \<Longrightarrow> all_cells (\<lambda>_ _ i. case name i of None \<Rightarrow> True | Some n \<Rightarrow> NL \<notin> set n) tbl \<Longrightarrow>
   \<forall>u \<in> set us. NL \<notin> set (fu_name u) \<Longrightarrow>
   lines_of (print_fu_group_int tbl us) = length (occupancy us) \<and>
   lines_of (print_fu_group_fp tbl us) = length (occupancy us)"
  by (simp add: print_fu_group_fp_int print_fu_group_int_occ NL_count_occupancy)

subsection \<open>The memory loop prints row by row\<close>

lemma mem_row_bytes:
  assumes "16 * k < N"
  shows "concat (map (print_mem_byte m) [16 * k..<min N (16 * k + 16)]) = mem_row m N k"
proof -
  have c: "[16 * k..<min N (16 * k + 16)] = 16 * k # [16 * k + 1..<min N (16 * k + 16)]"
    using assms by (simp add: upt_conv_Cons)
  have h: "print_mem_byte m (16 * k) =
             [NL, TAB] @ ''0x'' @ fmt_X 8 (16 * k) @ [TAB] @ fmt_X 2 (unat (m ! (16 * k)))"
    by (simp add: print_mem_byte_def and_15_nat)
  have t: "map (print_mem_byte m) [16 * k + 1..<min N (16 * k + 16)] =
             map (\<lambda>j. '' '' @ fmt_X 2 (unat (m ! j))) [16 * k + 1..<min N (16 * k + 16)]"
  proof (rule map_cong)
    fix j assume "j \<in> set [16 * k + 1..<min N (16 * k + 16)]"
    then have lo: "16 * k + 1 \<le> j" and hi: "j < 16 * k + 16" by simp_all
    define r where "r = j - 16 * k"
    have j: "j = 16 * k + r" "0 < r" "r < 16" using lo hi by (simp_all add: r_def)
    then have "j mod 16 \<noteq> 0" by simp
    then show "print_mem_byte m j = '' '' @ fmt_X 2 (unat (m ! j))"
      by (simp add: print_mem_byte_def and_15_nat)
  qed simp
  show ?thesis by (simp only: c list.map h t concat.simps append.assoc mem_row_def)
qed

lemma mem_rows_from:
  "16 * k \<le> N \<Longrightarrow>
     concat (map (print_mem_byte m) [16 * k..<N]) = concat (map (mem_row m N) [k..<(N + 15) div 16])"
proof (induction "N - 16 * k" arbitrary: k rule: less_induct)
  case less
  show ?case
  proof (cases "16 * k < N")
    case False
    then have N: "N = 16 * k" using less.prems by simp
    have "(N + 15) div 16 = k" by (rule div_nat_eqI) (simp_all add: N)
    then show ?thesis by (simp add: N)
  next
    case True
    have row: "concat (map (print_mem_byte m) [16 * k..<min N (16 * k + 16)]) = mem_row m N k"
      using True by (rule mem_row_bytes)
    have "Suc k \<le> (N + 15) div 16"
      using div_le_mono [of "16 * Suc k" "N + 15" 16] True by simp
    then have R: "[k..<(N + 15) div 16] = k # [Suc k..<(N + 15) div 16]" by (simp add: upt_conv_Cons)
    show ?thesis
    proof (cases "16 * k + 16 < N")
      case True
      have sp: "[16 * k..<N] = [16 * k..<16 * k + 16] @ [16 * Suc k..<N]"
        using True upt_add_eq_append [of "16 * k" "16 * k + 16" "N - (16 * k + 16)"] by (simp add: add.commute)
      have "concat (map (print_mem_byte m) [16 * Suc k..<N]) =
              concat (map (mem_row m N) [Suc k..<(N + 15) div 16])"
        using True by (intro less.hyps) simp_all
      with row True sp R show ?thesis by (simp add: min_def)
    next
      case False
      have "(N + 15) div 16 = Suc k" by (rule div_nat_eqI) (use True False in simp_all)
      with row False R show ?thesis by (simp add: min_def)
    qed
  qed
qed

subsection \<open>Properties of the state dump\<close>

text \<open>
  C14. Memory roundtrip: when the memory holds at least \<open>num_memory\<close> bytes, a reader that
  splits the memory section at blanks and reads every field that is not an address as a
  hexadecimal byte recovers exactly the first \<open>num_memory\<close> bytes, in order.
\<close>

theorem print_memory_roundtrip:
  assumes "nat num_memory \<le> length m"
  shows "parse_mem_dump (print_memory m num_memory) = Some (map unat (take (nat num_memory) m))"
proof -
  have "parse_mem_dump (print_memory m num_memory) =
          those (map (\<lambda>j. Some (unat (m ! j))) [0..<nat num_memory])"
    by (simp add: parse_mem_dump_def print_memory_def print_memory_from_concat fields_mem_bytes
        mem_byte_values)
  also have "\<dots> = Some (map (\<lambda>j. unat (m ! j)) [0..<nat num_memory])"
    using those_map_Some [of "map (\<lambda>j. unat (m ! j)) [0..<nat num_memory]"] by (simp add: comp_def)
  finally show ?thesis using map_nth_upt_take [OF assms, of unat] by simp
qed

theorem print_memory_roundtrip_witness:
  "parse_mem_dump (print_memory [0x12, 0xAB] 2) = Some [0x12, 0xAB]"
  using print_memory_roundtrip [of 2 "[0x12, 0xAB]"] by simp

text \<open>
  C15. Row structure of the memory section: the address fields are \<open>0x\<close> followed by eight
  hexadecimal digits of \<open>0, 16, 32, \<dots>\<close>, one per started block of 16 bytes, in order.
\<close>

theorem print_memory_addresses:
  "filter (\<lambda>t. take 2 t = ''0x'') (split_fields (print_memory m num_memory)) =
     map (\<lambda>k. ''0x'' @ fmt_X 8 (16 * k)) [0..<(nat num_memory + 15) div 16]"
  by (simp add: print_memory_def print_memory_from_concat fields_mem_bytes mem_byte_addresses
      filter_mod16_upt comp_def)

text \<open>
  C16. Register roundtrip: the integer register section consists of exactly 32 fields
  \<open>x<j>=0x<value>\<close>, for \<open>j = 0, \<dots>, 31\<close> in order, each of which reads back as its
  index and the register's unsigned value.
\<close>

theorem print_int_regs_roundtrip:
  "map parse_int_reg (split_fields (print_int_regs_from r 0)) =
     map (\<lambda>j. Some (j, unat (r ! j))) [0..<NUMREGS]"
  by (simp add: fields_int_regs parse_int_reg_print)


text \<open>
  C17. Width of the memory section: for any \<open>num_memory\<close> a C \<open>int\<close> can hold, every
  byte takes three characters and every row of 16 adds twelve for its address header
  (newline, tab, \<open>0x\<close>, eight digits, tab), so the address never outgrows its eight digits.
\<close>

theorem length_print_memory:
  assumes "num_memory < 2 ^ 31"
  shows "length (print_memory m num_memory) = 3 * nat num_memory + 12 * ((nat num_memory + 15) div 16)"
proof -
  have "nat num_memory < 16 ^ 8" using assms by simp
  then have "\<forall>j \<in> set [0..<nat num_memory]. j < 16 ^ 8" by simp
  then show ?thesis
    by (simp add: print_memory_def print_memory_from_concat length_mem_bytes filter_mod16_upt)
qed

theorem length_print_memory_witness:
  "length (print_memory [1, 2, 3, 4, 5, 6, 7, 8, 9, 10, 11, 12, 13, 14, 15, 16, 17] 17) = 75"
  using length_print_memory [of 17 "[1, 2, 3, 4, 5, 6, 7, 8, 9, 10, 11, 12, 13, 14, 15, 16, 17]"] by simp

text \<open>
  C23. Equivalence with the row-by-row reference: the memory loop, which tests
  \<open>i & 0xF\<close> at every byte to start a new line, writes exactly one row per started block of
  16 bytes, each the block's address followed by its bytes.
\<close>

theorem print_memory_eq_rows: "print_memory m num_memory = print_memory_rows m num_memory"
  using mem_rows_from [of 0 "nat num_memory" m]
  by (simp add: print_memory_def print_memory_from_concat print_memory_rows_def)

end
