(* ===== verification/FU_Heap.thy ===== *)
theory FU_Heap
  imports FU
begin

text \<open>
  The functional-unit chains of \<open>src/output.c\<close> (lines 83--105) as the pointer structures
  they are: units linked by \<open>next\<close>, stages linked by \<open>prev\<close>, both ending in \<open>NULL\<close>.
  The two \<open>while\<close> loops of \<open>print_fu_group_int\<close> are partial functions over a heap,
  whose value is \<open>None\<close> when a loop never ends. On chains that reach \<open>NULL\<close> they write
  what the list model of \<open>FU\<close> writes, and so the occupancy lines of spec section 4.3; they
  return exactly when every chain they follow reaches \<open>NULL\<close>; on a cyclic chain they never
  return. \<open>print_fu_group_fp\<close> has the same text over the floating-point structs; its
  walks are proved equal to the integer ones.
\<close>

text \<open>An address; \<open>None\<close> of \<open>addr option\<close> is \<open>NULL\<close>.\<close>

type_synonym addr = nat

text \<open>
  The split heap: one function per field of the two structs, as in \<open>HOL/Hoare/Heap\<close>
  (the stage fields \<open>instr\<close>, \<open>current_cycle\<close>, \<open>num_cycles\<close> grouped as one \<open>fu_stage\<close>).
\<close>

record fu_heap =
  stage_at :: "addr \<Rightarrow> fu_stage"
  prev_of :: "addr \<Rightarrow> addr option"
  unit_name :: "addr \<Rightarrow> string"
  unit_stages :: "addr \<Rightarrow> addr option"
  next_of :: "addr \<Rightarrow> addr option"

text \<open>
  The inner loop of \<open>print_fu_group_int\<close> (lines 91--102): \<open>stage = stage->prev\<close>
  until \<open>NULL\<close>, counting \<open>j\<close>. \<open>None\<close> is the value of a loop that does not end.
\<close>

partial_function (option) walk_int_stages ::
    "op_table_t \<Rightarrow> fu_heap \<Rightarrow> string \<Rightarrow> int \<Rightarrow> addr option \<Rightarrow> string option" where
  "walk_int_stages tbl h nm j p =
     (case p of
        None \<Rightarrow> Some []
      | Some a \<Rightarrow>
          Option.bind (walk_int_stages tbl h nm (j + 1) (prev_of h a))
            (\<lambda>rest. Some ((if current_cycle (stage_at h a) \<noteq> -1
                            then print_stage_line tbl nm j (stage_at h a) else []) @ rest)))"

text \<open>The outer loop (lines 83--105): \<open>fu_int = fu_int->next\<close> until \<open>NULL\<close>.\<close>

partial_function (option) walk_fu_group_int :: "op_table_t \<Rightarrow> fu_heap \<Rightarrow> addr option \<Rightarrow> string option" where
  "walk_fu_group_int tbl h p =
     (case p of
        None \<Rightarrow> Some []
      | Some a \<Rightarrow>
          Option.bind (walk_int_stages tbl h (unit_name h a) 0 (unit_stages h a))
            (\<lambda>s. Option.bind (walk_fu_group_int tbl h (next_of h a)) (\<lambda>r. Some (s @ r))))"

text \<open>
  The two loops of \<open>print_fu_group_fp\<close> (lines 107--129), the same text over \<open>fu_fp_t\<close> and
  \<open>fu_fp_stage_t\<close>, whose fields are those of the integer structs.
\<close>

partial_function (option) walk_fp_stages ::
    "op_table_t \<Rightarrow> fu_heap \<Rightarrow> string \<Rightarrow> int \<Rightarrow> addr option \<Rightarrow> string option" where
  "walk_fp_stages tbl h nm j p =
     (case p of
        None \<Rightarrow> Some []
      | Some a \<Rightarrow>
          Option.bind (walk_fp_stages tbl h nm (j + 1) (prev_of h a))
            (\<lambda>rest. Some ((if current_cycle (stage_at h a) \<noteq> -1
                            then print_stage_line tbl nm j (stage_at h a) else []) @ rest)))"

partial_function (option) walk_fu_group_fp :: "op_table_t \<Rightarrow> fu_heap \<Rightarrow> addr option \<Rightarrow> string option" where
  "walk_fu_group_fp tbl h p =
     (case p of
        None \<Rightarrow> Some []
      | Some a \<Rightarrow>
          Option.bind (walk_fp_stages tbl h (unit_name h a) 0 (unit_stages h a))
            (\<lambda>s. Option.bind (walk_fu_group_fp tbl h (next_of h a)) (\<lambda>r. Some (s @ r))))"

text \<open>
  \<open>chain nx p as\<close>: following \<open>nx\<close> from \<open>p\<close> visits the addresses \<open>as\<close> and then
  reaches \<open>NULL\<close> (\<open>List\<close> of \<open>HOL/Hoare/Heap\<close>).
\<close>

primrec chain :: "(addr \<Rightarrow> addr option) \<Rightarrow> addr option \<Rightarrow> addr list \<Rightarrow> bool" where
  "chain nx p [] \<longleftrightarrow> p = None"
| "chain nx p (a # as) \<longleftrightarrow> p = Some a \<and> chain nx (nx a) as"

text \<open>The units a heap holds along the chains \<open>as\<close> (units) and \<open>ss a\<close> (stages of unit \<open>a\<close>).\<close>

definition heap_units :: "fu_heap \<Rightarrow> (addr \<Rightarrow> addr list) \<Rightarrow> addr list \<Rightarrow> fu_unit list" where
  "heap_units h ss as = map (\<lambda>a. \<lparr>fu_name = unit_name h a, stage_list = map (stage_at h) (ss a)\<rparr>) as"

text \<open>The unit of the spec section 8 example on a heap: unit 0, stages 1, 2, 3 along \<open>prev\<close>.\<close>

definition ex_heap :: fu_heap where
  "ex_heap = \<lparr>stage_at = (\<lambda>a. stage_list ex_int_unit ! (a - 1)),
     prev_of = (\<lambda>a. if a < 3 then Some (a + 1) else None),
     unit_name = (\<lambda>_. ''int0''), unit_stages = (\<lambda>_. Some 1), next_of = (\<lambda>_. None)\<rparr>"

subsection \<open>The walks on NULL-terminated chains\<close>

lemma walk_int_stages_chain:
  "chain (prev_of h) p as \<Longrightarrow> walk_int_stages tbl h nm j p = Some (print_int_stages tbl nm j (map (stage_at h) as))"
proof (induction as arbitrary: p j)
  case Nil
  then show ?case by (simp add: walk_int_stages.simps)
next
  case (Cons a as)
  then show ?case by (simp add: walk_int_stages.simps [of tbl h nm j])
qed

lemma walk_fu_group_int_chain:
  "chain (next_of h) p as \<Longrightarrow> \<forall>a \<in> set as. chain (prev_of h) (unit_stages h a) (ss a) \<Longrightarrow>
   walk_fu_group_int tbl h p = Some (print_fu_group_int tbl (heap_units h ss as))"
proof (induction as arbitrary: p)
  case Nil
  then show ?case by (simp add: walk_fu_group_int.simps heap_units_def)
next
  case (Cons a as)
  then have p: "p = Some a" and nx: "chain (next_of h) (next_of h a) as" by simp_all
  have st: "walk_int_stages tbl h (unit_name h a) 0 (unit_stages h a) =
              Some (print_int_stages tbl (unit_name h a) 0 (map (stage_at h) (ss a)))"
    using Cons.prems(2) by (simp add: walk_int_stages_chain)
  show ?case
    using Cons.IH [OF nx] Cons.prems(2) st
    by (simp add: p walk_fu_group_int.simps [of tbl h "Some a"] heap_units_def)
qed

lemma walk_int_stages_returns_chain:
  assumes "walk_int_stages tbl h nm j p = Some out"
  shows "\<exists>as. chain (prev_of h) p as"
proof (induction rule: walk_int_stages.raw_induct [OF _ assms])
  case (1 walk tbl h nm j p out)
  show ?case
  proof (cases p)
    case None
    then show ?thesis by (metis chain.simps(1))
  next
    case (Some a)
    with 1(2) obtain rest where "walk tbl h nm (j + 1) (prev_of h a) = Some rest"
      by (auto split: Option.bind_splits)
    with 1(1) obtain as where "chain (prev_of h) (prev_of h a) as" by blast
    with Some have "chain (prev_of h) p (a # as)" by simp
    then show ?thesis by blast
  qed
qed

lemma walk_fu_group_int_returns_chain:
  assumes "walk_fu_group_int tbl h p = Some out"
  shows "\<exists>as. chain (next_of h) p as \<and> (\<forall>a \<in> set as. \<exists>ss. chain (prev_of h) (unit_stages h a) ss)"
proof (induction rule: walk_fu_group_int.raw_induct [OF _ assms])
  case (1 walk tbl h p out)
  show ?case
  proof (cases p)
    case None
    then show ?thesis by (metis chain.simps(1) empty_iff list.set(1))
  next
    case (Some a)
    with 1(2) obtain s r where s: "walk_int_stages tbl h (unit_name h a) 0 (unit_stages h a) = Some s"
        and r: "walk tbl h (next_of h a) = Some r"
      by (auto split: Option.bind_splits)
    from 1(1) [OF r] obtain as where as: "chain (next_of h) (next_of h a) as"
        "\<forall>b \<in> set as. \<exists>ss. chain (prev_of h) (unit_stages h b) ss" by blast
    from walk_int_stages_returns_chain [OF s] obtain ss where "chain (prev_of h) (unit_stages h a) ss" ..
    with Some as have "chain (next_of h) p (a # as) \<and> (\<forall>b \<in> set (a # as). \<exists>ss. chain (prev_of h) (unit_stages h b) ss)"
      by auto
    then show ?thesis by blast
  qed
qed

lemma chain_cycle:
  assumes "a \<in> C" "\<forall>b \<in> C. \<exists>c \<in> C. nx b = Some c"
  shows "\<not> chain nx (Some a) as"
  using assms(1)
proof (induction as arbitrary: a)
  case Nil
  then show ?case by simp
next
  case (Cons b as)
  then show ?case using assms(2) by (cases as) force+
qed

subsection \<open>The floating-point walks are the integer walks\<close>

lemma walk_fp_int_stages:
  assumes "walk_fp_stages tbl h nm j p = Some y"
  shows "walk_int_stages tbl h nm j p = Some y"
proof (induction rule: walk_fp_stages.raw_induct [OF _ assms])
  case (1 walk tbl h nm j p y)
  then show ?case
    by (auto simp: walk_int_stages.simps [of tbl h nm j p] split: option.splits Option.bind_splits)
qed

lemma walk_int_fp_stages:
  assumes "walk_int_stages tbl h nm j p = Some y"
  shows "walk_fp_stages tbl h nm j p = Some y"
proof (induction rule: walk_int_stages.raw_induct [OF _ assms])
  case (1 walk tbl h nm j p y)
  then show ?case
    by (auto simp: walk_fp_stages.simps [of tbl h nm j p] split: option.splits Option.bind_splits)
qed

lemma walk_fp_stages_eq: "walk_fp_stages tbl h nm j p = walk_int_stages tbl h nm j p"
  by (cases "walk_fp_stages tbl h nm j p"; cases "walk_int_stages tbl h nm j p")
     (auto dest: walk_fp_int_stages walk_int_fp_stages)

lemma walk_fp_int_group:
  assumes "walk_fu_group_fp tbl h p = Some y"
  shows "walk_fu_group_int tbl h p = Some y"
proof (induction rule: walk_fu_group_fp.raw_induct [OF _ assms])
  case (1 walk tbl h p y)
  then show ?case
    by (auto simp: walk_fu_group_int.simps [of tbl h p] walk_fp_stages_eq split: option.splits Option.bind_splits)
qed

lemma walk_int_fp_group:
  assumes "walk_fu_group_int tbl h p = Some y"
  shows "walk_fu_group_fp tbl h p = Some y"
proof (induction rule: walk_fu_group_int.raw_induct [OF _ assms])
  case (1 walk tbl h p y)
  then show ?case
    by (auto simp: walk_fu_group_fp.simps [of tbl h p] walk_fp_stages_eq split: option.splits Option.bind_splits)
qed

subsection \<open>Properties of the pointer walks\<close>

text \<open>
  C19. Refinement of the pointer code: when the unit chain from \<open>p\<close> and every unit's
  stage chain reach \<open>NULL\<close>, the two loops of \<open>print_fu_group_int\<close> return, and they
  write exactly the occupancy lines (spec section 4.3) of the units the heap holds.
\<close>

theorem walk_fu_group_int_occupancy:
  assumes "chain (next_of h) p as" "\<forall>a \<in> set as. chain (prev_of h) (unit_stages h a) (ss a)"
  shows "walk_fu_group_int tbl h p = Some (concat (map (occ_line tbl) (occupancy (heap_units h ss as))))"
  using walk_fu_group_int_chain [OF assms] by (simp add: print_fu_group_int_occ)

theorem walk_fu_group_int_occupancy_witness:
  "walk_fu_group_int op_table ex_heap (Some 0) =
     Some (concat (map (occ_line op_table) (occupancy (heap_units ex_heap (\<lambda>_. [1, 2, 3]) [0]))))"
  by (rule walk_fu_group_int_occupancy) (simp_all add: ex_heap_def)

text \<open>
  C20. Termination: the display loops return exactly when the unit chain they start on and
  the stage chain of every unit on it reach \<open>NULL\<close>.
\<close>

theorem walk_fu_group_int_terminates:
  "walk_fu_group_int tbl h p \<noteq> None \<longleftrightarrow>
     (\<exists>as. chain (next_of h) p as \<and> (\<forall>a \<in> set as. \<exists>ss. chain (prev_of h) (unit_stages h a) ss))"
proof
  assume "walk_fu_group_int tbl h p \<noteq> None"
  then obtain out where "walk_fu_group_int tbl h p = Some out" by blast
  then show "\<exists>as. chain (next_of h) p as \<and> (\<forall>a \<in> set as. \<exists>ss. chain (prev_of h) (unit_stages h a) ss)"
    by (rule walk_fu_group_int_returns_chain)
next
  assume "\<exists>as. chain (next_of h) p as \<and> (\<forall>a \<in> set as. \<exists>ss. chain (prev_of h) (unit_stages h a) ss)"
  then obtain as where c: "chain (next_of h) p as"
      and s: "\<forall>a \<in> set as. \<exists>ss. chain (prev_of h) (unit_stages h a) ss" by blast
  from s obtain ss where "\<forall>a \<in> set as. chain (prev_of h) (unit_stages h a) (ss a)"
    by (metis bchoice)
  then show "walk_fu_group_int tbl h p \<noteq> None"
    using walk_fu_group_int_chain [OF c] by simp
qed

theorem walk_fu_group_int_terminates_witness: "walk_fu_group_int op_table ex_heap (Some 0) \<noteq> None"
proof -
  have ss: "chain (prev_of ex_heap) (unit_stages ex_heap 0) [1, 2, 3]" by (simp add: ex_heap_def)
  have s: "\<forall>a \<in> set [0]. \<exists>ss. chain (prev_of ex_heap) (unit_stages ex_heap a) ss"
  proof
    fix a :: addr assume "a \<in> set [0]"
    then have "a = 0" by simp
    with ss show "\<exists>ss. chain (prev_of ex_heap) (unit_stages ex_heap a) ss" by blast
  qed
  have c: "chain (next_of ex_heap) (Some 0) [0]" by (simp add: ex_heap_def)
  from c s have "chain (next_of ex_heap) (Some 0) [0] \<and>
               (\<forall>a \<in> set [0]. \<exists>ss. chain (prev_of ex_heap) (unit_stages ex_heap a) ss)" ..
  then show ?thesis using walk_fu_group_int_terminates [of op_table ex_heap "Some 0"] by blast
qed

text \<open>
  C21. A cyclic unit chain (every unit of a set \<open>C\<close> links by \<open>next\<close> to a unit of \<open>C\<close>)
  makes \<open>print_fu_group_int\<close> loop forever, whatever the stages hold.
\<close>

theorem walk_fu_group_int_cycle:
  assumes "a \<in> C" "\<forall>b \<in> C. \<exists>c \<in> C. next_of h b = Some c"
  shows "walk_fu_group_int tbl h (Some a) = None"
proof (rule ccontr)
  assume "walk_fu_group_int tbl h (Some a) \<noteq> None"
  then obtain out where "walk_fu_group_int tbl h (Some a) = Some out" by blast
  then obtain as where "chain (next_of h) (Some a) as"
    using walk_fu_group_int_returns_chain by blast
  with chain_cycle [OF assms] show False by blast
qed

theorem walk_fu_group_int_cycle_witness:
  "walk_fu_group_int op_table (ex_heap\<lparr>next_of := \<lambda>_. Some 0\<rparr>) (Some 0) = None"
  by (rule walk_fu_group_int_cycle [of 0 "{0}"]) simp_all

text \<open>
  C24. Equivalence of the two display routines: on every heap and every start pointer the
  loops of \<open>print_fu_group_fp\<close> behave as those of \<open>print_fu_group_int\<close>: both
  diverge, or both return the same characters. So C19--C21 hold for the floating-point
  groups too.
\<close>

theorem walk_fu_group_fp_eq_int: "walk_fu_group_fp tbl h p = walk_fu_group_int tbl h p"
  by (cases "walk_fu_group_fp tbl h p"; cases "walk_fu_group_int tbl h p")
     (auto dest: walk_fp_int_group walk_int_fp_group)

end
