(* ===== verification/Spec2Isabelle.thy ===== *)
theory Spec2Isabelle
  imports State FU_Heap
begin

text \<open>
  \<^bold>\<open>A verification library for the output module of the RISC-V pipeline simulator\<close>
  (\<open>src/output.c\<close>).

  \<^bold>\<open>The program.\<close> \<open>output.c\<close> is the simulator's display layer. \<open>printInstruction\<close>
  disassembles one 32-bit instruction word by walking a three-level decode table
  (opcode, then func3, then func7) and formatting the operands by functional-unit group;
  \<open>print_fu_group_int\<close> and \<open>print_fu_group_fp\<close> walk the linked lists of functional units
  (\<open>next\<close>) and of their pipeline stages (\<open>prev\<close>) and print every occupied stage, each with
  its disassembled occupant; \<open>print_state\<close> dumps the memory, the register files, the
  \<open>pc\<close>, the IF/ID latch, the four functional-unit groups (through the two routines above)
  and the write-back latches (through \<open>printInstruction\<close>). Everything is read-only output:
  each routine is modelled as a function from what it reads to the characters it writes
  with \<open>printf\<close>, in order.

  \<^bold>\<open>Theories.\<close>
  \<^item> \<open>Prelude\<close>: the type \<open>instr\<close> (\<open>32 word\<close>), lemma collections, mask, signed-word,
    positional-arithmetic and list lemmas.
  \<^item> \<open>Printf\<close>: the C conversions \<open>%d\<close>, \<open>%.<p>X\<close>, \<open>%-<w>s\<close> with their parsers
    (roundtrip and width lemmas); \<open>split_fields\<close>, the split of printed text at blanks,
    tabs and newlines that a reader of the dump applies, and \<open>lines_of\<close>, its newline count.
  \<^item> \<open>Instr_Fields\<close>: the \<open>NOP\<close> sentinel and the \<open>FIELD_*\<close> macros (simulator headers,
    modelled from spec section 6); ranges and encode/decode roundtrips for the R, I, S and
    J formats, the last bit by bit (\<open>bit_eqI\<close>).
  \<^item> \<open>Decode_Table\<close>: \<open>op_info_t\<close> and the level-1/2 cells as records, the traversal of
    spec section 4.1 with checked reads (\<open>op_lookup\<close>), the invariant \<open>wf_op_table\<close>
    and the simulator's table \<open>op_table\<close> (modelled from the spec and the RISC-V ISA:
    \<open>fu.c\<close> is not in the repository).
  \<^item> \<open>Disasm\<close>: \<open>printInstruction\<close> and its per-depth branches, the abstract contract of
    spec section 4.2 (\<open>spec_disassemble\<close>) with the code's layout of it (\<open>code_layout\<close>), the
    refinement theorem between them, the behaviour on every branch, the roundtrip of the
    scrambled J-type offset (C1--C9, C22).
  \<^item> \<open>FU\<close>: the two occupancy routines over chains as lists in traversal order, the
    contract of spec section 4.3 (\<open>occupancy\<close>) and its refinement (C10--C13).
  \<^item> \<open>State\<close>: \<open>print_state\<close> as \<open>print_state_dump\<close> (the name \<open>print_state\<close> is an Isar
    command), its three \<open>for\<close> loops as functions terminating by the measure bound minus
    counter, readers of the memory and register sections and their roundtrips, widths and
    line counts, and the equivalence of the memory loop with a row-by-row reference
    (C14--C17, C23).
  \<^item> \<open>FU_Heap\<close>: the loops of \<open>print_fu_group_int\<close> over the pointer structure, a split
    heap in the style of \<open>HOL/Hoare/Heap\<close>, as \<open>partial_function (option)\<close> walks (\<open>None\<close>:
    the loop does not end); refinement to \<open>FU\<close> and to the occupancy contract on
    \<open>NULL\<close>-terminated chains, termination exactly on such chains, divergence on a cycle
    (C19--C21); the loops of \<open>print_fu_group_fp\<close> likewise, proved equal to the integer
    ones by partial-correctness induction in both directions (C24).
  \<^item> This theory: the line structure of the whole dump, across \<open>State\<close>, \<open>FU\<close> and
    \<open>Disasm\<close> (C18).

  \<^bold>\<open>Modelling choices.\<close> The word is a \<open>32 word\<close>; unsigned fields are read with
  \<open>unat\<close>, the immediates with \<open>sint\<close> and C's arithmetic shift. A \<open>NULL\<close> table cell
  is \<open>None\<close>; reads of the decode table are checked (\<open>op_lookup\<close>), and the invariant
  \<open>wf_op_table\<close> (128/8/128 entries) makes every read in range. \<open>NOP\<close> is
  \<open>0x00000013\<close> (\<open>addi x0, x0, 0\<close>). The float registers have an abstract type and
  \<open>%.6g\<close> is a parameter. Memory bytes are unsigned 8-bit words. A C array read past
  its end is not modelled: the theorems that read \<open>mem\<close> assume \<open>num_memory\<close> bytes.
  No fuel is used: every loop over a counter is a \<open>function\<close> with a measure, and
  the pointer loops are partial functions whose termination is a theorem (C20).

  \<^bold>\<open>Not modelled.\<close> The simulator's pipeline advance, hazard logic and \<open>main\<close>
  (not in \<open>src/\<close>, out of scope in spec section 1); the contents of the repository's
  own \<open>op_table\<close> and of \<open>state_t\<close> beyond the fields \<open>print_state\<close> reads (their
  headers are not in the repository); float formatting (\<open>%g\<close>) and the rest of
  \<open>printf\<close>. The lines of \<open>output.c\<close> outside the map are its includes, comments and
  blank lines. No liveness property is stated: the module is read-only output with no
  reactive behaviour; what could be said of progress is the termination theorem C20.
\<close>

subsection \<open>The state dump as a whole\<close>

text \<open>
  C18. Line structure of the whole dump (\<open>print_state\<close> with the disassembler and the
  occupancy display): when no mnemonic, group name, unit name or float rendering contains
  a newline, the dump has exactly 30 fixed lines, one per started row of 16 memory bytes
  and one per occupied stage of every functional unit of the four groups.
\<close>

theorem print_state_dump_lines:
  assumes "wf_op_table tbl"
    and "all_cells (\<lambda>_ _ i. case name i of None \<Rightarrow> True | Some n \<Rightarrow> NL \<notin> set n) tbl"
    and "\<forall>x. NL \<notin> set (g x)"
    and "NL \<notin> set (fu_group_int_name nms @ fu_group_add_name nms @ fu_group_mult_name nms @ fu_group_div_name nms)"
    and "\<forall>u \<in> set (fu_int_list st @ fu_add_list st @ fu_mult_list st @ fu_div_list st). NL \<notin> set (fu_name u)"
  shows "lines_of (print_state_dump tbl g nms st num_memory) =
           30 + (nat num_memory + 15) div 16
           + length (occupancy (fu_int_list st)) + length (occupancy (fu_add_list st))
           + length (occupancy (fu_mult_list st)) + length (occupancy (fu_div_list st))"
proof -
  have fu: "lines_of (print_fu_group_int tbl (fu_int_list st)) = length (occupancy (fu_int_list st))"
           "lines_of (print_fu_group_fp tbl (fu_add_list st)) = length (occupancy (fu_add_list st))"
           "lines_of (print_fu_group_fp tbl (fu_mult_list st)) = length (occupancy (fu_mult_list st))"
           "lines_of (print_fu_group_fp tbl (fu_div_list st)) = length (occupancy (fu_div_list st))"
    using lines_of_fu_group [OF assms(1,2)] assms(5) by simp_all
  have regs: "lines_of (print_int_regs_from (reg_int st) 0) = 8"
             "lines_of (print_fp_regs_from g (reg_fp st) 0) = 8"
    using lines_of_fp_regs [OF assms(3)] by (simp_all add: lines_of_int_regs NUMREGS_def)
  have names: "lines_of (fu_group_int_name nms) = 0" "lines_of (fu_group_add_name nms) = 0"
              "lines_of (fu_group_mult_name nms) = 0" "lines_of (fu_group_div_name nms) = 0"
    using assms(4) by (simp_all add: lines_of_free)
  have instr: "lines_of (printInstruction tbl (if_id_instr st)) = 0"
    using NL_notin_printInstruction [OF assms(1,2)] by (simp add: lines_of_free)
  show ?thesis
    unfolding print_state_dump_def
    by (simp add: fu regs names instr lines_of_memory lines_of_print_wb [OF assms(1,2)] lines_of_free
        NL_notin_fmt_X)
qed

theorem print_state_dump_lines_witness:
  "lines_of (print_state_dump op_table (\<lambda>_. ''0'') ex_names ex_state 3) = 33"
proof -
  have wf: "wf_op_table op_table" using well_placed_op_table by (simp add: well_placed_def)
  have nl: "all_cells (\<lambda>_ _ i. case name i of None \<Rightarrow> True | Some n \<Rightarrow> NL \<notin> set n) op_table"
    by code_simp
  have g: "\<forall>x. NL \<notin> set ((\<lambda>_ :: unit. ''0'') x)" by simp
  have nms: "NL \<notin> set (fu_group_int_name ex_names @ fu_group_add_name ex_names @
                          fu_group_mult_name ex_names @ fu_group_div_name ex_names)"
    by (simp add: ex_names_def)
  have us: "\<forall>u \<in> set (fu_int_list ex_state @ fu_add_list ex_state @ fu_mult_list ex_state @
                        fu_div_list ex_state). NL \<notin> set (fu_name u)"
    by (simp add: ex_state_def ex_int_unit_def)
  have occ: "length (occupancy [ex_int_unit]) = 2"
    by (simp add: occupancy_def unit_occupancy_def busy_def ex_int_unit_def)
  show ?thesis
    using print_state_dump_lines [OF wf nl g nms us, of 3] occ by (simp add: ex_state_def occupancy_def)
qed

end
